theory Spec2Isabelle
  imports Main "HOL-Library.Multiset"
begin

section \<open>Tokens, types and routine descriptors\<close>

text \<open>
  The token codes that \<^verbatim>\<open>parse_statement.cpp\<close> names, in the spelling of the source.
  The enumeration itself is declared in a header that is not part of the sources at hand;
  \<open>tc_other\<close> stands for all the enumerators the statement parser never mentions
  (operators, further keywords).
\<close>

datatype cx_token_code =
    tc_identifier | tc_number | tc_string | tc_end_of_file
  | tc_semicolon | tc_colon | tc_left_paren | tc_right_paren
  | tc_left_bracket | tc_right_bracket | tc_pound
  | tc_CONST | tc_DO | tc_WHILE | tc_IF | tc_ELSE | tc_FOR
  | tc_SWITCH | tc_BREAK | tc_RETURN
  | tc_other nat

text \<open>The data type of a literal token (\<^verbatim>\<open>p_token->type()\<close>); only \<open>ty_integer\<close> is named.\<close>

datatype cx_data_type = ty_dummy | ty_integer | ty_real | ty_character | ty_string

text \<open>
  A token: its code, its text (\<^verbatim>\<open>string__()\<close>) and, for literals, its data type
  (\<^verbatim>\<open>type()\<close>).
\<close>

record cx_token =
  tok_code :: cx_token_code
  tok_string :: string
  tok_type :: cx_data_type

text \<open>The error codes raised by the statement parser.\<close>

datatype cx_error_code =
    err_missing_WHILE | err_missing_left_paren | err_missing_right_paren
  | err_missing_semicolon | err_missing_colon | err_missing_right_bracket
  | err_incompatible_types | err_undefined_identifier | err_invalid_constant

text \<open>
  Type objects are only ever compared by address and asked for their form, so a
  \<^verbatim>\<open>cx_type *\<close> is modelled as an address; what lives at the address is read through
  the collaborators below.
\<close>

type_synonym cx_type_ptr = nat

datatype cx_type_form = fc_none | fc_scalar | fc_enum | fc_subrange | fc_array | fc_complex

datatype cx_function_type = func_declared | func_forward | func_standard | func_std_iterator

text \<open>
  The part of a \<^verbatim>\<open>cx_symtab_node\<close> the statement parser reads of the enclosing routine:
  its declared type (\<^verbatim>\<open>p_type\<close>) and \<^verbatim>\<open>defn.routine.which\<close>.
\<close>

record cx_symtab_node =
  p_type :: cx_type_ptr
  which :: cx_function_type

section \<open>Parser state\<close>

text \<open>
  A unit of the intermediate code stream: a recorded token, a line marker, or the slot of
  a location marker (\<open>None\<close> until it is fixed up).
\<close>

datatype icode_unit = token_unit cx_token | line_marker | location_marker "nat option"

text \<open>The calls made to the marker service of the stream, in the order they happen.\<close>

datatype marker_call = reserve_call nat | fixup_call nat

text \<open>
  The state every parse routine mutates: the tokens not yet consumed (the head is the
  lookahead), the intermediate code stream, the errors reported so far, and the log of
  marker calls.
\<close>

record parser_state =
  input :: "cx_token list"
  icode :: "icode_unit list"
  errors :: "cx_error_code list"
  marker_calls :: "marker_call list"

text \<open>
  The collaborators of the statement parser whose code is not in
  \<^verbatim>\<open>parse_statement.cpp\<close>: the expression and declaration parsers, the symbol table, the
  type descriptors and the token lists.  They are parameters of the model.
\<close>

record collaborators =
  parse_expression :: "parser_state \<Rightarrow> cx_type_ptr \<times> parser_state"
  parse_declarations_or_assignment :: "cx_symtab_node \<Rightarrow> parser_state \<Rightarrow> parser_state"
  parse_constant_declaration :: "cx_symtab_node \<Rightarrow> parser_state \<Rightarrow> parser_state"
  parse_execute_directive :: "cx_symtab_node \<Rightarrow> parser_state \<Rightarrow> parser_state"
  search_all :: "string \<Rightarrow> bool"
  base_type :: "cx_type_ptr \<Rightarrow> cx_type_ptr"
  form :: "cx_type_ptr \<Rightarrow> cx_type_form"
  p_integer_type :: cx_type_ptr
  p_char_type :: cx_type_ptr
  is_boolean :: "cx_type_ptr \<Rightarrow> bool"
  is_assignment_compatible :: "cx_type_ptr \<Rightarrow> cx_type_ptr \<Rightarrow> bool"
  tokenlist_statement_follow :: "cx_token_code list"
  tokenlist_statement_start :: "cx_token_code list"
  tokenlist_unary_ops :: "cx_token_code list"

section \<open>Token cursor, error sink and marker service\<close>

text \<open>The current token object; past the last token the scanner delivers end-of-file.\<close>

definition eof_token :: cx_token where
  "eof_token = \<lparr>tok_code = tc_end_of_file, tok_string = [], tok_type = ty_dummy\<rparr>"

definition p_token :: "parser_state \<Rightarrow> cx_token" where
  "p_token s = (case input s of [] \<Rightarrow> eof_token | t # _ \<Rightarrow> t)"

definition token :: "parser_state \<Rightarrow> cx_token_code" where
  "token s = tok_code (p_token s)"

text \<open>
  Modelled from the spec: the token cursor's \<^verbatim>\<open>advance(record_in_stream)\<close>, which is
  missing from the sources.  \<open>get_token\<close> advances without recording;
  \<open>get_token_append\<close> records the consumed token into the stream and advances.  At
  end-of-file the cursor stays where it is.
\<close>

definition get_token :: "parser_state \<Rightarrow> parser_state" where
  "get_token s = (if token s = tc_end_of_file then s else s\<lparr>input := tl (input s)\<rparr>)"

definition get_token_append :: "parser_state \<Rightarrow> parser_state" where
  "get_token_append s = get_token (s\<lparr>icode := icode s @ [token_unit (p_token s)]\<rparr>)"

text \<open>Modelled from the spec: the error sink's \<^verbatim>\<open>report(ErrorKind)\<close>; it records and goes on.\<close>

definition cx_error :: "cx_error_code \<Rightarrow> parser_state \<Rightarrow> parser_state" where
  "cx_error ec s = s\<lparr>errors := errors s @ [ec]\<rparr>"

text \<open>
  Modelled from the spec: requiring a token (section 7): consume and record it when it is
  the current token, report the error and leave the cursor otherwise.
\<close>

definition conditional_get_token_append ::
  "cx_token_code \<Rightarrow> cx_error_code \<Rightarrow> parser_state \<Rightarrow> parser_state" where
  "conditional_get_token_append tc ec s =
     (if token s = tc then get_token_append s else cx_error ec s)"

text \<open>
  Modelled from the spec: \<^verbatim>\<open>reserve_marker()\<close> appends a placeholder slot and returns
  its position; \<^verbatim>\<open>fixup(id)\<close> writes the current stream position into that slot
  (section 9).  Both are logged.
\<close>

definition put_location_marker :: "parser_state \<Rightarrow> nat \<times> parser_state" where
  "put_location_marker s =
     (length (icode s),
      s\<lparr>icode := icode s @ [location_marker None],
        marker_calls := marker_calls s @ [reserve_call (length (icode s))]\<rparr>)"

definition fixup_location_marker :: "nat \<Rightarrow> parser_state \<Rightarrow> parser_state" where
  "fixup_location_marker location s =
     s\<lparr>icode := (icode s)[location := location_marker (Some (length (icode s)))],
       marker_calls := marker_calls s @ [fixup_call location]\<rparr>"

text \<open>
  Modelled from the spec: the stream's \<^verbatim>\<open>append(unit)\<close>, here for the line marker that
  opens every statement (the line number it carries is left out).
\<close>

definition insert_line_marker :: "parser_state \<Rightarrow> parser_state" where
  "insert_line_marker s = s\<lparr>icode := icode s @ [line_marker]\<rparr>"

text \<open>Modelled from the spec: membership in a token list.\<close>

definition token_in :: "cx_token_code \<Rightarrow> cx_token_code list \<Rightarrow> bool" where
  "token_in tc tokenlist = (tc \<in> set tokenlist)"

text \<open>
  Modelled from the spec: error recovery (section 4.9).  If the current token is not in
  the first list, tokens are discarded one at a time until one is in either list, or
  end-of-file is reached.
\<close>

function resync_skip ::
  "cx_token_code list \<Rightarrow> cx_token_code list \<Rightarrow> parser_state \<Rightarrow> parser_state" where
  "resync_skip list1 list2 s =
     (if \<not> token_in (token s) list1 \<and> \<not> token_in (token s) list2
         \<and> token s \<noteq> tc_end_of_file
      then resync_skip list1 list2 (get_token s) else s)"
  by pat_completeness auto
termination
  by (relation "measure (\<lambda>(l1, l2, s). length (input s))")
     (auto simp: get_token_def token_def p_token_def eof_token_def split: list.splits)

definition resync ::
  "cx_token_code list \<Rightarrow> cx_token_code list \<Rightarrow> parser_state \<Rightarrow> parser_state" where
  "resync list1 list2 s =
     (if token_in (token s) list1 then s else resync_skip list1 list2 s)"

text \<open>
  Modelled from the spec: the boolean check of a condition and the assignment
  compatibility check; each reports its error and goes on.
\<close>

definition check_boolean :: "collaborators \<Rightarrow> cx_type_ptr \<Rightarrow> parser_state \<Rightarrow> parser_state" where
  "check_boolean env ty s =
     (if is_boolean env ty then s else cx_error err_incompatible_types s)"

definition check_assignment_type_compatible ::
  "collaborators \<Rightarrow> cx_type_ptr \<Rightarrow> cx_type_ptr \<Rightarrow> cx_error_code \<Rightarrow> parser_state \<Rightarrow> parser_state" where
  "check_assignment_type_compatible env target_type value_type ec s =
     (if is_assignment_compatible env target_type value_type then s else cx_error ec s)"

section \<open>The statement parser\<close>

text \<open>The loop \<^verbatim>\<open>while (token == tc_semicolon) get_token_append();\<close>.\<close>

function semicolon_loop :: "parser_state \<Rightarrow> parser_state" where
  "semicolon_loop s =
     (if token s = tc_semicolon then semicolon_loop (get_token_append s) else s)"
  by pat_completeness auto
termination
  by (relation "measure (\<lambda>s. length (input s))")
     (auto simp: get_token_append_def get_token_def token_def p_token_def eof_token_def
           split: list.splits)

text \<open>\<^verbatim>\<open>parse_RETURN\<close>: consume \<^verbatim>\<open>return\<close>, parse the expression, check it against the
  routine's type.\<close>

definition parse_RETURN :: "collaborators \<Rightarrow> cx_symtab_node \<Rightarrow> parser_state \<Rightarrow> parser_state" where
  "parse_RETURN env p_function_id s =
     (let s1 = get_token_append s;
          (ty, s2) = parse_expression env s1
      in check_assignment_type_compatible env (p_type p_function_id) ty
           err_incompatible_types s2)"

text \<open>
  The parse routines call each other recursively, and the statement list may loop for
  ever (a statement that consumes nothing in front of a token that is neither the
  terminator nor end-of-file).  Each routine is therefore written over the routines it
  calls back into (\<open>parse_statement\<close>, \<open>parse_statement_list\<close>), and the knot is
  tied below by recursion on fuel: \<open>None\<close> is "has not returned within the fuel given".
\<close>

type_synonym statement_parser = "cx_symtab_node \<Rightarrow> parser_state \<Rightarrow> parser_state option"

type_synonym statement_list_parser =
  "cx_symtab_node \<Rightarrow> cx_token_code \<Rightarrow> parser_state \<Rightarrow> parser_state option"

definition parse_DO :: "collaborators \<Rightarrow> statement_list_parser \<Rightarrow> statement_parser" where
  "parse_DO env parse_statement_list p_function_id s =
     (let (break_point, s1) = put_location_marker s;
          s2 = get_token_append s1 in
      case parse_statement_list p_function_id tc_WHILE s2 of
        None \<Rightarrow> None
      | Some s3 \<Rightarrow>
          (let s4 = conditional_get_token_append tc_WHILE err_missing_WHILE s3;
               s5 = conditional_get_token_append tc_left_paren err_missing_left_paren s4;
               (ty, s6) = parse_expression env s5;
               s7 = check_boolean env ty s6;
               s8 = conditional_get_token_append tc_right_paren err_missing_right_paren s7
           in Some (fixup_location_marker break_point s8)))"

definition parse_WHILE :: "collaborators \<Rightarrow> statement_parser \<Rightarrow> statement_parser" where
  "parse_WHILE env parse_statement p_function_id s =
     (let (break_point, s1) = put_location_marker s;
          s2 = get_token_append s1;
          s3 = conditional_get_token_append tc_left_paren err_missing_left_paren s2;
          (ty, s4) = parse_expression env s3;
          s5 = check_boolean env ty s4;
          s6 = conditional_get_token_append tc_right_paren err_missing_right_paren s5 in
      case parse_statement p_function_id s6 of
        None \<Rightarrow> None
      | Some s7 \<Rightarrow> Some (fixup_location_marker break_point s7))"

definition parse_IF :: "collaborators \<Rightarrow> statement_parser \<Rightarrow> statement_parser" where
  "parse_IF env parse_statement p_function_id s =
     (let (at_false_location_marker, s1) = put_location_marker s;
          s2 = get_token_append s1;
          s3 = conditional_get_token_append tc_left_paren err_missing_left_paren s2;
          (ty, s4) = parse_expression env s3;
          s5 = check_boolean env ty s4;
          s6 = conditional_get_token_append tc_right_paren err_missing_right_paren s5 in
      case parse_statement p_function_id s6 of
        None \<Rightarrow> None
      | Some s7 \<Rightarrow>
          (let s8 = semicolon_loop s7;
               s9 = fixup_location_marker at_false_location_marker s8 in
           if token s9 = tc_ELSE
           then (let (at_follow_location_marker, s10) = put_location_marker s9;
                     s11 = get_token_append s10 in
                 case parse_statement p_function_id s11 of
                   None \<Rightarrow> None
                 | Some s12 \<Rightarrow>
                     Some (fixup_location_marker at_follow_location_marker
                             (semicolon_loop s12)))
           else Some s9))"

definition parse_FOR :: "collaborators \<Rightarrow> statement_parser \<Rightarrow> statement_parser" where
  "parse_FOR env parse_statement p_function_id s =
     (let (break_point, s1) = put_location_marker s;
          (statementMarker, s2) = put_location_marker s1;
          (condition_marker, s3) = put_location_marker s2;
          (increment_marker, s4) = put_location_marker s3;
          s5 = get_token_append s4;
          s6 = conditional_get_token_append tc_left_paren err_missing_left_paren s5;
          s7 = (if token s6 \<noteq> tc_semicolon
                then conditional_get_token_append tc_semicolon err_missing_semicolon
                       (parse_declarations_or_assignment env p_function_id s6)
                else get_token_append s6);
          s8 = fixup_location_marker condition_marker s7;
          s9 = (if token s8 \<noteq> tc_semicolon
                then (let (ty, t) = parse_expression env s8 in
                      conditional_get_token_append tc_semicolon err_missing_semicolon
                        (check_boolean env ty t))
                else get_token_append s8);
          s10 = fixup_location_marker increment_marker s9;
          s11 = (if token s10 \<noteq> tc_right_paren
                 then snd (parse_expression env s10) else s10);
          s12 = conditional_get_token_append tc_right_paren err_missing_right_paren s11;
          s13 = fixup_location_marker statementMarker s12 in
      case parse_statement p_function_id s13 of
        None \<Rightarrow> None
      | Some s14 \<Rightarrow> Some (fixup_location_marker break_point s14))"

definition parse_SWITCH :: "collaborators \<Rightarrow> statement_parser \<Rightarrow> statement_parser" where
  "parse_SWITCH env parse_statement p_function_id s =
     (let s1 = get_token_append s;
          s2 = conditional_get_token_append tc_left_paren err_missing_left_paren s1;
          (ty, s3) = parse_expression env s2;
          p_expr_type = base_type env ty;
          s4 = conditional_get_token_append tc_right_paren err_missing_right_paren s3;
          s5 = (if p_expr_type \<noteq> p_integer_type env
                   \<and> p_expr_type \<noteq> p_char_type env
                   \<and> form env p_expr_type \<noteq> fc_enum
                then cx_error err_incompatible_types s4 else s4)
      in parse_statement p_function_id s5)"

definition parse_compound :: "statement_list_parser \<Rightarrow> statement_parser" where
  "parse_compound parse_statement_list p_function_id s =
     (let s1 = get_token_append s in
      case parse_statement_list p_function_id tc_right_bracket s1 of
        None \<Rightarrow> None
      | Some s2 \<Rightarrow>
          if which p_function_id = func_std_iterator then Some s2
          else Some (conditional_get_token_append tc_right_bracket
                       err_missing_right_bracket s2))"

text \<open>
  \<^verbatim>\<open>parse_case_label\<close>: the case-label validator, which no routine calls.  The type of
  the selector is passed and never read.
\<close>

definition parse_case_label ::
  "collaborators \<Rightarrow> statement_list_parser \<Rightarrow> cx_symtab_node \<Rightarrow> cx_type_ptr
     \<Rightarrow> parser_state \<Rightarrow> parser_state option" where
  "parse_case_label env parse_statement_list p_function_id p_expr_type s =
     (let s1 = get_token_append s;
          (sign_flag, s2) =
             (if token_in (token s1) (tokenlist_unary_ops env)
              then (True, get_token_append s1) else (False, s1));
          s3 = (case token s2 of
                  tc_identifier \<Rightarrow>
                    get_token_append
                      (if \<not> search_all env (tok_string (p_token s2))
                       then cx_error err_undefined_identifier s2 else s2)
                | tc_number \<Rightarrow>
                    get_token_append
                      (if tok_type (p_token s2) \<noteq> ty_integer
                       then cx_error err_invalid_constant s2 else s2)
                | tc_string \<Rightarrow>
                    (if sign_flag \<or> length (tok_string (p_token s2)) \<noteq> 3
                     then cx_error err_invalid_constant s2 else s2)
                | _ \<Rightarrow> s2);
          s4 = conditional_get_token_append tc_colon err_missing_colon s3
      in parse_statement_list p_function_id tc_BREAK s4)"

text \<open>\<^verbatim>\<open>parse_statement_list\<close>: the do-while loop; the fuel bounds its turns.\<close>

primrec parse_statement_list :: "nat \<Rightarrow> statement_parser \<Rightarrow> statement_list_parser" where
  "parse_statement_list 0 parse_statement p_function_id terminator s = None"
| "parse_statement_list (Suc k) parse_statement p_function_id terminator s =
     (case parse_statement p_function_id s of
        None \<Rightarrow> None
      | Some s1 \<Rightarrow>
          (let s2 = semicolon_loop s1 in
           if token s2 \<noteq> terminator \<and> token s2 \<noteq> tc_end_of_file
           then parse_statement_list k parse_statement p_function_id terminator s2
           else Some s2))"

text \<open>
  \<^verbatim>\<open>parse_statement\<close>: the dispatcher.  With fuel \<open>Suc n\<close> the routines it dispatches
  to call back into the dispatcher with fuel \<open>n\<close>, and the statement list gets \<open>n\<close>
  turns.
\<close>

primrec parse_statement :: "collaborators \<Rightarrow> nat \<Rightarrow> statement_parser" where
  "parse_statement env 0 = (\<lambda>p_function_id s. None)"
| "parse_statement env (Suc n) = (\<lambda>p_function_id s.
     (let s0 = insert_line_marker s in
      case (case token s0 of
              tc_identifier \<Rightarrow> Some (parse_declarations_or_assignment env p_function_id s0)
            | tc_CONST \<Rightarrow>
                Some (parse_constant_declaration env p_function_id (get_token_append s0))
            | tc_DO \<Rightarrow>
                parse_DO env (parse_statement_list n (parse_statement env n)) p_function_id s0
            | tc_WHILE \<Rightarrow> parse_WHILE env (parse_statement env n) p_function_id s0
            | tc_IF \<Rightarrow> parse_IF env (parse_statement env n) p_function_id s0
            | tc_FOR \<Rightarrow> parse_FOR env (parse_statement env n) p_function_id s0
            | tc_SWITCH \<Rightarrow> parse_SWITCH env (parse_statement env n) p_function_id s0
            | tc_BREAK \<Rightarrow> Some (get_token_append s0)
            | tc_left_bracket \<Rightarrow>
                parse_compound (parse_statement_list n (parse_statement env n)) p_function_id s0
            | tc_RETURN \<Rightarrow> Some (parse_RETURN env p_function_id s0)
            | tc_pound \<Rightarrow> Some (parse_execute_directive env p_function_id (get_token s0))
            | _ \<Rightarrow> Some s0) of
        None \<Rightarrow> None
      | Some s1 \<Rightarrow>
          Some (if token s1 \<noteq> tc_end_of_file
                then resync (tokenlist_statement_follow env) (tokenlist_statement_start env) s1
                else s1)))"

section \<open>The marker discipline\<close>

text \<open>The markers reserved, and the markers fixed up, by a sequence of marker calls.\<close>

fun reserved :: "marker_call list \<Rightarrow> nat list" where
  "reserved [] = []"
| "reserved (reserve_call m # cs) = m # reserved cs"
| "reserved (fixup_call m # cs) = reserved cs"

fun fixed :: "marker_call list \<Rightarrow> nat list" where
  "fixed [] = []"
| "fixed (reserve_call m # cs) = fixed cs"
| "fixed (fixup_call m # cs) = m # fixed cs"

text \<open>
  A sequence of marker calls is balanced when no marker is reserved twice and the markers
  fixed up are, counted with repetition, exactly the markers reserved: every reserved
  marker is fixed up once, and nothing else is fixed up.
\<close>

definition balanced :: "marker_call list \<Rightarrow> bool" where
  "balanced cs \<longleftrightarrow> distinct (reserved cs) \<and> mset (fixed cs) = mset (reserved cs)"

text \<open>
  \<open>appends_only s s'\<close>: from \<open>s\<close> to \<open>s'\<close> the stream has only grown at its end and no
  marker call was made.
\<close>

definition appends_only :: "parser_state \<Rightarrow> parser_state \<Rightarrow> bool" where
  "appends_only s s' \<longleftrightarrow> (\<exists>ic. icode s' = icode s @ ic) \<and> marker_calls s' = marker_calls s"

text \<open>
  \<open>extends s s'\<close>: from \<open>s\<close> to \<open>s'\<close> the stream has only grown at its end, and the marker
  calls made in between are balanced and concern slots of the part that was added.
\<close>

definition extends :: "parser_state \<Rightarrow> parser_state \<Rightarrow> bool" where
  "extends s s' \<longleftrightarrow>
     (\<exists>ic cs. icode s' = icode s @ ic \<and> marker_calls s' = marker_calls s @ cs \<and> balanced cs
        \<and> list_all (\<lambda>m. length (icode s) \<le> m \<and> m < length (icode s')) (reserved cs))"

text \<open>
  What the theorems on markers and on the layout of the stream ask of the collaborators:
  the expression and declaration parsers append to the stream and leave the markers
  alone.
\<close>

definition well_behaved :: "collaborators \<Rightarrow> bool" where
  "well_behaved env \<longleftrightarrow>
     (\<forall>s. appends_only s (snd (parse_expression env s)))
   \<and> (\<forall>f s. appends_only s (parse_declarations_or_assignment env f s))
   \<and> (\<forall>f s. appends_only s (parse_constant_declaration env f s))
   \<and> (\<forall>f s. appends_only s (parse_execute_directive env f s))"

text \<open>
  \<open>nested L cs\<close>: the marker calls \<open>cs\<close> are balanced and concern markers reserved after
  slot \<open>L\<close>: they are the calls of the parses nested in a statement whose own last marker
  is \<open>L\<close>.
\<close>

definition nested :: "nat \<Rightarrow> marker_call list \<Rightarrow> bool" where
  "nested L cs \<longleftrightarrow> balanced cs \<and> list_all (\<lambda>m. L < m) (reserved cs)"

text \<open>
  A statement parser, or a statement-list parser, keeps the discipline when every parse
  that returns has only extended the state it started from.
\<close>

definition stmt_ok :: "statement_parser \<Rightarrow> bool" where
  "stmt_ok stmt \<longleftrightarrow> (\<forall>f s s'. stmt f s = Some s' \<longrightarrow> extends s s')"

definition stmts_ok :: "statement_list_parser \<Rightarrow> bool" where
  "stmts_ok stmts \<longleftrightarrow> (\<forall>f terminator s s'. stmts f terminator s = Some s' \<longrightarrow> extends s s')"

section \<open>A small set of collaborators for worked examples\<close>

text \<open>
  Concrete stand-ins for the collaborators, used only to run the parser on example
  inputs: an expression is an operand, or two operands around a \<open>+\<close>; it is of the
  integer type (address 1) when it starts with a number and of the boolean type
  (address 0) otherwise; declarations, assignments and directives are a single token.
\<close>

definition tok :: "cx_token_code \<Rightarrow> cx_token" where
  "tok tc = \<lparr>tok_code = tc, tok_string = [], tok_type = ty_dummy\<rparr>"

definition ident :: "string \<Rightarrow> cx_token" where
  "ident name = \<lparr>tok_code = tc_identifier, tok_string = name, tok_type = ty_dummy\<rparr>"

definition number :: "string \<Rightarrow> cx_token" where
  "number digits = \<lparr>tok_code = tc_number, tok_string = digits, tok_type = ty_integer\<rparr>"

definition string_tok :: "string \<Rightarrow> cx_token" where
  "string_tok text = \<lparr>tok_code = tc_string, tok_string = text, tok_type = ty_string\<rparr>"

definition tc_plus :: cx_token_code where
  "tc_plus = tc_other 0"

definition case_tok :: cx_token where
  "case_tok = \<lparr>tok_code = tc_other 1, tok_string = ''case'', tok_type = ty_dummy\<rparr>"

definition demo_expression :: "parser_state \<Rightarrow> cx_type_ptr \<times> parser_state" where
  "demo_expression s =
     (let ty = (if token s = tc_number then 1 else 0);
          s1 = get_token_append s
      in if token s1 = tc_plus then (ty, get_token_append (get_token_append s1))
         else (ty, s1))"

definition demo_env :: collaborators where
  "demo_env = \<lparr>
     parse_expression = demo_expression,
     parse_declarations_or_assignment = (\<lambda>f. get_token_append),
     parse_constant_declaration = (\<lambda>f. get_token_append),
     parse_execute_directive = (\<lambda>f. get_token_append),
     search_all = (\<lambda>name. name = ''x''),
     base_type = (\<lambda>p. p),
     form = (\<lambda>p. if p = 3 then fc_enum else fc_scalar),
     p_integer_type = 1,
     p_char_type = 2,
     is_boolean = (\<lambda>p. p = 0),
     is_assignment_compatible = (\<lambda>target v. target = v),
     tokenlist_statement_follow = [tc_semicolon, tc_right_bracket, tc_ELSE, tc_WHILE],
     tokenlist_statement_start =
       [tc_identifier, tc_CONST, tc_DO, tc_WHILE, tc_IF, tc_FOR, tc_SWITCH, tc_BREAK,
        tc_left_bracket, tc_RETURN, tc_pound],
     tokenlist_unary_ops = [tc_plus]\<rparr>"

definition demo_routine :: cx_symtab_node where
  "demo_routine = \<lparr>p_type = 1, which = func_declared\<rparr>"

definition start :: "cx_token list \<Rightarrow> parser_state" where
  "start ts = \<lparr>input = ts, icode = [], errors = [], marker_calls = []\<rparr>"

section \<open>Facts about the cursor, the error sink and the marker service\<close>

lemmas cursor_defs = token_def p_token_def eof_token_def get_token_def get_token_append_def
  cx_error_def conditional_get_token_append_def put_location_marker_def
  fixup_location_marker_def insert_line_marker_def token_in_def resync_def
  check_boolean_def check_assignment_type_compatible_def

lemmas demo_defs = tok_def ident_def number_def string_tok_def case_tok_def tc_plus_def
  demo_expression_def demo_env_def demo_routine_def start_def

lemma token_update [simp]:
  "token (s\<lparr>errors := e\<rparr>) = token s"
  "token (s\<lparr>icode := c\<rparr>) = token s"
  "token (s\<lparr>marker_calls := m\<rparr>) = token s"
  by (simp_all add: token_def p_token_def)

lemma p_token_update [simp]:
  "p_token (s\<lparr>errors := e\<rparr>) = p_token s"
  "p_token (s\<lparr>icode := c\<rparr>) = p_token s"
  "p_token (s\<lparr>marker_calls := m\<rparr>) = p_token s"
  by (simp_all add: p_token_def)

lemma cx_error_simps [simp]:
  "input (cx_error ec s) = input s"
  "icode (cx_error ec s) = icode s"
  "errors (cx_error ec s) = errors s @ [ec]"
  "marker_calls (cx_error ec s) = marker_calls s"
  "token (cx_error ec s) = token s"
  "p_token (cx_error ec s) = p_token s"
  by (simp_all add: cx_error_def)

lemma get_token_simps [simp]:
  "icode (get_token s) = icode s"
  "errors (get_token s) = errors s"
  "marker_calls (get_token s) = marker_calls s"
  by (simp_all add: get_token_def)

lemma get_token_append_simps [simp]:
  "icode (get_token_append s) = icode s @ [token_unit (p_token s)]"
  "errors (get_token_append s) = errors s"
  "marker_calls (get_token_append s) = marker_calls s"
  by (simp_all add: get_token_append_def get_token_def)

lemma conditional_get_token_append_simps [simp]:
  "icode (conditional_get_token_append tc ec s) =
     icode s @ (if token s = tc then [token_unit (p_token s)] else [])"
  "errors (conditional_get_token_append tc ec s) =
     errors s @ (if token s = tc then [] else [ec])"
  "marker_calls (conditional_get_token_append tc ec s) = marker_calls s"
  by (simp_all add: conditional_get_token_append_def)

lemma check_boolean_simps [simp]:
  "input (check_boolean env ty s) = input s"
  "icode (check_boolean env ty s) = icode s"
  "errors (check_boolean env ty s) =
     errors s @ (if is_boolean env ty then [] else [err_incompatible_types])"
  "marker_calls (check_boolean env ty s) = marker_calls s"
  "token (check_boolean env ty s) = token s"
  "p_token (check_boolean env ty s) = p_token s"
  by (simp_all add: check_boolean_def)

lemma insert_line_marker_simps [simp]:
  "input (insert_line_marker s) = input s"
  "icode (insert_line_marker s) = icode s @ [line_marker]"
  "errors (insert_line_marker s) = errors s"
  "marker_calls (insert_line_marker s) = marker_calls s"
  "token (insert_line_marker s) = token s"
  "p_token (insert_line_marker s) = p_token s"
  by (simp_all add: insert_line_marker_def)

lemma fixup_location_marker_simps [simp]:
  "input (fixup_location_marker m s) = input s"
  "icode (fixup_location_marker m s) =
     (icode s)[m := location_marker (Some (length (icode s)))]"
  "errors (fixup_location_marker m s) = errors s"
  "marker_calls (fixup_location_marker m s) = marker_calls s @ [fixup_call m]"
  "token (fixup_location_marker m s) = token s"
  "p_token (fixup_location_marker m s) = p_token s"
  by (simp_all add: fixup_location_marker_def)

lemma put_location_marker_simps [simp]:
  "fst (put_location_marker s) = length (icode s)"
  "input (snd (put_location_marker s)) = input s"
  "icode (snd (put_location_marker s)) = icode s @ [location_marker None]"
  "errors (snd (put_location_marker s)) = errors s"
  "marker_calls (snd (put_location_marker s)) =
     marker_calls s @ [reserve_call (length (icode s))]"
  "token (snd (put_location_marker s)) = token s"
  "p_token (snd (put_location_marker s)) = p_token s"
  by (simp_all add: put_location_marker_def)

declare semicolon_loop.simps [simp del] resync_skip.simps [simp del]

lemma semicolon_loop_simps [simp]:
  "errors (semicolon_loop s) = errors s"
  "marker_calls (semicolon_loop s) = marker_calls s"
  by (induction s rule: semicolon_loop.induct; subst semicolon_loop.simps; simp)+

lemma semicolon_loop_token: "token (semicolon_loop s) \<noteq> tc_semicolon"
  by (induction s rule: semicolon_loop.induct) (subst semicolon_loop.simps, simp)

lemma semicolon_loop_icode: "\<exists>ic. icode (semicolon_loop s) = icode s @ ic"
  by (induction s rule: semicolon_loop.induct) (subst semicolon_loop.simps, auto)

lemma resync_skip_simps [simp]:
  "icode (resync_skip l1 l2 s) = icode s"
  "errors (resync_skip l1 l2 s) = errors s"
  "marker_calls (resync_skip l1 l2 s) = marker_calls s"
  by (induction l1 l2 s rule: resync_skip.induct; subst resync_skip.simps; simp)+

lemma resync_simps [simp]:
  "icode (resync l1 l2 s) = icode s"
  "errors (resync l1 l2 s) = errors s"
  "marker_calls (resync l1 l2 s) = marker_calls s"
  by (simp_all add: resync_def)


lemmas run_defs = cursor_defs demo_defs semicolon_loop.simps resync_skip.simps

section \<open>Return statements\<close>

text \<open>
  Claim C8.  \<^verbatim>\<open>parse_RETURN\<close> consumes the \<^verbatim>\<open>return\<close> token, parses an expression,
  and leaves the state in which the expression parser returned, with exactly one
  incompatible-types error added when the expression's type is not assignment compatible
  with the routine's declared type, and with nothing added when it is.
\<close>

theorem parse_RETURN_type_check:
  assumes "parse_expression env (get_token_append s) = (ty, s2)"
  shows "parse_RETURN env p_function_id s =
           s2\<lparr>errors := errors s2 @
                 (if is_assignment_compatible env (p_type p_function_id) ty then []
                  else [err_incompatible_types])\<rparr>"
  using assms
  by (simp add: parse_RETURN_def check_assignment_type_compatible_def cx_error_def)

theorem parse_RETURN_type_check_witness:
  "parse_expression demo_env (get_token_append (start [tok tc_RETURN, ident ''b''])) =
     (0, \<lparr>input = [], icode = [token_unit (tok tc_RETURN), token_unit (ident ''b'')],
          errors = [], marker_calls = []\<rparr>)
   \<and> errors (parse_RETURN demo_env demo_routine (start [tok tc_RETURN, ident ''b'']))
       = [err_incompatible_types]
   \<and> errors (parse_RETURN demo_env demo_routine (start [tok tc_RETURN, number ''1''])) = []"
proof -
  have e: "parse_expression demo_env (get_token_append (start [tok tc_RETURN, ident ''b''])) =
     (0, \<lparr>input = [], icode = [token_unit (tok tc_RETURN), token_unit (ident ''b'')],
          errors = [], marker_calls = []\<rparr>)"
    by (simp add: run_defs)
  have e2: "parse_expression demo_env (get_token_append (start [tok tc_RETURN, number ''1''])) =
     (1, \<lparr>input = [], icode = [token_unit (tok tc_RETURN), token_unit (number ''1'')],
          errors = [], marker_calls = []\<rparr>)"
    by (simp add: run_defs)
  show ?thesis
    using parse_RETURN_type_check [OF e, of demo_routine]
      parse_RETURN_type_check [OF e2, of demo_routine] e
    by (simp add: demo_env_def demo_routine_def)
qed

section \<open>Compound blocks\<close>

text \<open>
  Claim C4.  Once the statement list of a compound block has returned, a routine flagged
  as standard iterator returns at once: the closing delimiter is neither required nor
  consumed, and no error is reported even when it is absent.  For any other routine the
  closing delimiter is consumed when present, and when it is absent exactly one
  missing-right-bracket error is reported.
\<close>

theorem parse_compound_closing_delimiter:
  assumes "parse_statement_list k (parse_statement env n) p_function_id tc_right_bracket
             (get_token_append s) = Some s2"
  shows "parse_compound (parse_statement_list k (parse_statement env n)) p_function_id s =
           Some (if which p_function_id = func_std_iterator then s2
                 else if token s2 = tc_right_bracket then get_token_append s2
                 else s2\<lparr>errors := errors s2 @ [err_missing_right_bracket]\<rparr>)"
  using assms
  by (simp add: parse_compound_def conditional_get_token_append_def cx_error_def)

theorem parse_compound_closing_delimiter_witness:
  "parse_statement_list (Suc (Suc 0)) (parse_statement demo_env (Suc 0)) demo_routine
      tc_right_bracket (get_token_append (start [tok tc_left_bracket, ident ''a'']))
     = Some \<lparr>input = [],
              icode = [token_unit (tok tc_left_bracket), line_marker, token_unit (ident ''a'')],
              errors = [], marker_calls = []\<rparr>
   \<and> parse_compound (parse_statement_list (Suc (Suc 0)) (parse_statement demo_env (Suc 0)))
        demo_routine (start [tok tc_left_bracket, ident ''a''])
       = Some \<lparr>input = [],
              icode = [token_unit (tok tc_left_bracket), line_marker, token_unit (ident ''a'')],
              errors = [err_missing_right_bracket], marker_calls = []\<rparr>
   \<and> parse_compound (parse_statement_list (Suc (Suc 0)) (parse_statement demo_env (Suc 0)))
        (demo_routine\<lparr>which := func_std_iterator\<rparr>) (start [tok tc_left_bracket, ident ''a''])
       = Some \<lparr>input = [],
              icode = [token_unit (tok tc_left_bracket), line_marker, token_unit (ident ''a'')],
              errors = [], marker_calls = []\<rparr>"
proof -
  have l: "parse_statement_list (Suc (Suc 0)) (parse_statement demo_env (Suc 0)) demo_routine
      tc_right_bracket (get_token_append (start [tok tc_left_bracket, ident ''a'']))
     = Some \<lparr>input = [],
              icode = [token_unit (tok tc_left_bracket), line_marker, token_unit (ident ''a'')],
              errors = [], marker_calls = []\<rparr>"
    by (simp add: run_defs)
  have l': "parse_statement_list (Suc (Suc 0)) (parse_statement demo_env (Suc 0))
      (demo_routine\<lparr>which := func_std_iterator\<rparr>)
      tc_right_bracket (get_token_append (start [tok tc_left_bracket, ident ''a'']))
     = Some \<lparr>input = [],
              icode = [token_unit (tok tc_left_bracket), line_marker, token_unit (ident ''a'')],
              errors = [], marker_calls = []\<rparr>"
    by (simp add: run_defs)
  show ?thesis
    using parse_compound_closing_delimiter [OF l] parse_compound_closing_delimiter [OF l'] l
    by (simp add: demo_routine_def token_def p_token_def eof_token_def)
qed

section \<open>Switch statements and case labels\<close>

text \<open>
  Claim C6.  \<^verbatim>\<open>parse_SWITCH\<close> consumes \<^verbatim>\<open>switch\<close>, requires the parentheses around
  the selector expression, reports an incompatible-types error exactly when the base
  type of the selector is neither the integer type, nor the character type, nor an
  enumeration, and then parses one statement; nothing else is emitted or recorded.
\<close>

theorem parse_SWITCH_selector_check:
  assumes "parse_expression env
             (conditional_get_token_append tc_left_paren err_missing_left_paren
                (get_token_append s)) = (ty, s3)"
  shows "parse_SWITCH env (parse_statement env n) p_function_id s =
           parse_statement env n p_function_id
             (let s4 = conditional_get_token_append tc_right_paren err_missing_right_paren s3
              in s4\<lparr>errors := errors s4 @
                     (if base_type env ty \<noteq> p_integer_type env
                         \<and> base_type env ty \<noteq> p_char_type env
                         \<and> form env (base_type env ty) \<noteq> fc_enum
                      then [err_incompatible_types] else [])\<rparr>)"
  using assms
  by (simp add: parse_SWITCH_def cx_error_def Let_def del: conditional_get_token_append_simps)

theorem parse_SWITCH_selector_check_witness:
  "parse_expression demo_env
     (conditional_get_token_append tc_left_paren err_missing_left_paren
        (get_token_append
           (start [tok tc_SWITCH, tok tc_left_paren, ident ''b'', tok tc_right_paren, ident ''x''])))
     = (0, \<lparr>input = [tok tc_right_paren, ident ''x''],
             icode = [token_unit (tok tc_SWITCH), token_unit (tok tc_left_paren),
                      token_unit (ident ''b'')],
             errors = [], marker_calls = []\<rparr>)
   \<and> parse_SWITCH demo_env (parse_statement demo_env (Suc 0)) demo_routine
        (start [tok tc_SWITCH, tok tc_left_paren, ident ''b'', tok tc_right_paren, ident ''x''])
     = Some \<lparr>input = [],
              icode = [token_unit (tok tc_SWITCH), token_unit (tok tc_left_paren),
                       token_unit (ident ''b''), token_unit (tok tc_right_paren),
                       line_marker, token_unit (ident ''x'')],
              errors = [err_incompatible_types], marker_calls = []\<rparr>"
proof -
  have e: "parse_expression demo_env
     (conditional_get_token_append tc_left_paren err_missing_left_paren
        (get_token_append
           (start [tok tc_SWITCH, tok tc_left_paren, ident ''b'', tok tc_right_paren, ident ''x''])))
     = (0, \<lparr>input = [tok tc_right_paren, ident ''x''],
             icode = [token_unit (tok tc_SWITCH), token_unit (tok tc_left_paren),
                      token_unit (ident ''b'')],
             errors = [], marker_calls = []\<rparr>)"
    by (simp add: run_defs)
  show ?thesis
    using parse_SWITCH_selector_check [OF e, of "Suc 0" demo_routine] e
    by (simp add: run_defs)
qed

text \<open>
  Claim C10.  When the case value (after the optional sign) is a string token, the
  validator does not consume it: the required-colon check sees the string token, so a
  missing-colon error is reported and the statement list starts with the cursor still on
  the string token, whether the string was valid (no sign, length 3) or not.
\<close>

theorem parse_case_label_string_not_consumed:
  assumes "sign_flag = token_in (token (get_token_append s)) (tokenlist_unary_ops env)"
      and "s2 = (if sign_flag then get_token_append (get_token_append s)
                 else get_token_append s)"
      and "token s2 = tc_string"
  shows "parse_case_label env (parse_statement_list k (parse_statement env n))
           p_function_id p_expr_type s =
         parse_statement_list k (parse_statement env n) p_function_id tc_BREAK
           (s2\<lparr>errors := errors s2 @
                 (if sign_flag \<or> length (tok_string (p_token s2)) \<noteq> 3
                  then [err_invalid_constant] else [])
                 @ [err_missing_colon]\<rparr>)"
proof (cases sign_flag)
  case True
  with assms have "token (get_token_append (get_token_append s)) = tc_string"
    and "token_in (token (get_token_append s)) (tokenlist_unary_ops env)"
    and "s2 = get_token_append (get_token_append s)"
    by simp_all
  with True show ?thesis
    by (simp add: parse_case_label_def conditional_get_token_append_def cx_error_def)
next
  case False
  with assms have "token (get_token_append s) = tc_string"
    and "\<not> token_in (token (get_token_append s)) (tokenlist_unary_ops env)"
    and "s2 = get_token_append s"
    by simp_all
  with False show ?thesis
    by (simp add: parse_case_label_def conditional_get_token_append_def cx_error_def)
qed

theorem parse_case_label_string_not_consumed_witness:
  "token (get_token_append (start [case_tok, string_tok [CHR 0x27, CHR ''a'', CHR 0x27],
                                    tok tc_colon, tok tc_BREAK])) = tc_string
   \<and> parse_case_label demo_env
        (parse_statement_list (Suc 0) (parse_statement demo_env (Suc 0)))
        demo_routine 2
        (start [case_tok, string_tok [CHR 0x27, CHR ''a'', CHR 0x27],
                tok tc_colon, tok tc_BREAK])
     = parse_statement_list (Suc 0) (parse_statement demo_env (Suc 0)) demo_routine tc_BREAK
         \<lparr>input = [string_tok [CHR 0x27, CHR ''a'', CHR 0x27], tok tc_colon, tok tc_BREAK],
          icode = [token_unit case_tok], errors = [err_missing_colon], marker_calls = []\<rparr>"
proof -
  let ?s = "start [case_tok, string_tok [CHR 0x27, CHR ''a'', CHR 0x27],
                   tok tc_colon, tok tc_BREAK]"
  have f: "False = token_in (token (get_token_append ?s)) (tokenlist_unary_ops demo_env)"
    by (simp add: run_defs)
  have s2: "get_token_append ?s = (if False then get_token_append (get_token_append ?s)
                 else get_token_append ?s)"
    by simp
  have t: "token (get_token_append ?s) = tc_string"
    by (simp add: run_defs)
  show ?thesis
    using parse_case_label_string_not_consumed [OF f s2 t, of "Suc 0" "Suc 0" demo_routine 2] t
    by (simp add: run_defs)
qed

section \<open>The dispatcher\<close>

text \<open>
  Claim C9.  On the directive marker \<^verbatim>\<open>#\<close> the dispatcher advances with
  \<open>get_token\<close>: the directive parser starts from a stream that holds the statement's line
  marker and no unit for the \<^verbatim>\<open>#\<close> token, and is otherwise unchanged.  On
  \<^verbatim>\<open>const\<close> and \<^verbatim>\<open>break\<close> the dispatcher advances with \<open>get_token_append\<close>, and the
  consumed token is in the stream.
\<close>

theorem directive_marker_not_appended:
  "(token s = tc_pound \<longrightarrow>
      parse_statement env (Suc n) p_function_id s =
        Some (let s1 = parse_execute_directive env p_function_id
                         (s\<lparr>icode := icode s @ [line_marker], input := tl (input s)\<rparr>)
              in if token s1 \<noteq> tc_end_of_file
                 then resync (tokenlist_statement_follow env) (tokenlist_statement_start env) s1
                 else s1))
   \<and> (token s = tc_CONST \<longrightarrow>
      parse_statement env (Suc n) p_function_id s =
        Some (let s1 = parse_constant_declaration env p_function_id
                         (s\<lparr>icode := icode s @ [line_marker, token_unit (p_token s)],
                            input := tl (input s)\<rparr>)
              in if token s1 \<noteq> tc_end_of_file
                 then resync (tokenlist_statement_follow env) (tokenlist_statement_start env) s1
                 else s1))
   \<and> (token s = tc_BREAK \<longrightarrow>
      parse_statement env (Suc n) p_function_id s =
        Some (let s1 = s\<lparr>icode := icode s @ [line_marker, token_unit (p_token s)],
                           input := tl (input s)\<rparr>
              in if token s1 \<noteq> tc_end_of_file
                 then resync (tokenlist_statement_follow env) (tokenlist_statement_start env) s1
                 else s1))"
  by (simp add: get_token_def get_token_append_def insert_line_marker_def Let_def)

theorem directive_marker_not_appended_witness:
  "token (start [tok tc_pound, ident ''x'', tok tc_semicolon]) = tc_pound
   \<and> parse_statement demo_env (Suc 0) demo_routine (start [tok tc_pound, ident ''x'', tok tc_semicolon])
       = Some \<lparr>input = [tok tc_semicolon], icode = [line_marker, token_unit (ident ''x'')],
                errors = [], marker_calls = []\<rparr>
   \<and> token (start [tok tc_BREAK, tok tc_semicolon]) = tc_BREAK
   \<and> parse_statement demo_env (Suc 0) demo_routine (start [tok tc_BREAK, tok tc_semicolon])
       = Some \<lparr>input = [tok tc_semicolon], icode = [line_marker, token_unit (tok tc_BREAK)],
                errors = [], marker_calls = []\<rparr>
   \<and> token (start [tok tc_CONST, ident ''x'', tok tc_semicolon]) = tc_CONST
   \<and> parse_statement demo_env (Suc 0) demo_routine (start [tok tc_CONST, ident ''x'', tok tc_semicolon])
       = Some \<lparr>input = [tok tc_semicolon],
                icode = [line_marker, token_unit (tok tc_CONST), token_unit (ident ''x'')],
                errors = [], marker_calls = []\<rparr>"
proof -
  have p: "token (start [tok tc_pound, ident ''x'', tok tc_semicolon]) = tc_pound"
    and b: "token (start [tok tc_BREAK, tok tc_semicolon]) = tc_BREAK"
    and c: "token (start [tok tc_CONST, ident ''x'', tok tc_semicolon]) = tc_CONST"
    by (simp_all add: run_defs)
  show ?thesis
    using directive_marker_not_appended
            [of "start [tok tc_pound, ident ''x'', tok tc_semicolon]" demo_env 0 demo_routine]
          directive_marker_not_appended
            [of "start [tok tc_BREAK, tok tc_semicolon]" demo_env 0 demo_routine]
          directive_marker_not_appended
            [of "start [tok tc_CONST, ident ''x'', tok tc_semicolon]" demo_env 0 demo_routine]
          p b c
    by (simp add: run_defs del: parse_statement.simps)
qed

section \<open>The statement list\<close>

lemma semicolon_loop_input:
  "input (semicolon_loop s) = dropWhile (\<lambda>t. tok_code t = tc_semicolon) (input s)"
proof (induction s rule: semicolon_loop.induct)
  case (1 s)
  show ?case
  proof (cases "token s = tc_semicolon")
    case True
    then have "input (get_token_append s) = tl (input s)"
      by (simp add: get_token_append_def get_token_def)
    with True 1 show ?thesis
      by (subst semicolon_loop.simps)
         (auto simp: token_def p_token_def eof_token_def split: list.splits)
  next
    case False
    then show ?thesis
      by (subst semicolon_loop.simps)
         (auto simp: token_def p_token_def eof_token_def split: list.splits)
  qed
qed

lemma parse_statement_list_stops:
  "parse_statement_list k stmt f terminator s = Some s' \<Longrightarrow>
     token s' = terminator \<or> token s' = tc_end_of_file"
  by (induction k arbitrary: s) (auto simp: Let_def split: option.splits if_splits)

text \<open>
  Claim C7.  One turn of the statement list dispatches one statement and then consumes
  the whole run of separators that follows; the list stops there when the current token
  is the terminator or end-of-file, and takes another turn otherwise.  Whenever the list
  returns, the current token is the terminator or end-of-file.
\<close>

theorem parse_statement_list_driver:
  assumes "parse_statement env n p_function_id s = Some s1"
  shows "input (semicolon_loop s1) = dropWhile (\<lambda>t. tok_code t = tc_semicolon) (input s1)
     \<and> parse_statement_list (Suc k) (parse_statement env n) p_function_id terminator s =
         (if token (semicolon_loop s1) = terminator
             \<or> token (semicolon_loop s1) = tc_end_of_file
          then Some (semicolon_loop s1)
          else parse_statement_list k (parse_statement env n) p_function_id terminator
                 (semicolon_loop s1))
     \<and> (case parse_statement_list (Suc k) (parse_statement env n) p_function_id terminator s of
          None \<Rightarrow> True
        | Some s' \<Rightarrow> token s' = terminator \<or> token s' = tc_end_of_file)"
  using assms parse_statement_list_stops [of "Suc k" "parse_statement env n" p_function_id terminator s]
  by (auto simp: semicolon_loop_input split: option.splits)

theorem parse_statement_list_driver_witness:
  "parse_statement demo_env (Suc 0) demo_routine
     (start [ident ''a'', tok tc_semicolon, tok tc_semicolon, tok tc_semicolon, ident ''b'',
             tok tc_right_bracket])
     = Some \<lparr>input = [tok tc_semicolon, tok tc_semicolon, tok tc_semicolon, ident ''b'',
                       tok tc_right_bracket],
              icode = [line_marker, token_unit (ident ''a'')], errors = [], marker_calls = []\<rparr>
   \<and> parse_statement_list (Suc (Suc 0)) (parse_statement demo_env (Suc 0)) demo_routine
       tc_right_bracket
       (start [ident ''a'', tok tc_semicolon, tok tc_semicolon, tok tc_semicolon, ident ''b'',
               tok tc_right_bracket])
     = Some \<lparr>input = [tok tc_right_bracket],
              icode = [line_marker, token_unit (ident ''a''), token_unit (tok tc_semicolon),
                       token_unit (tok tc_semicolon), token_unit (tok tc_semicolon),
                       line_marker, token_unit (ident ''b'')],
              errors = [], marker_calls = []\<rparr>
   \<and> parse_statement_list (Suc (Suc (Suc 0))) (parse_statement demo_env (Suc 0)) demo_routine
       tc_right_bracket (start [ident ''a'', tok tc_semicolon])
     = Some \<lparr>input = [],
              icode = [line_marker, token_unit (ident ''a''), token_unit (tok tc_semicolon)],
              errors = [], marker_calls = []\<rparr>"
proof -
  let ?s = "start [ident ''a'', tok tc_semicolon, tok tc_semicolon, tok tc_semicolon,
                   ident ''b'', tok tc_right_bracket]"
  have a: "parse_statement demo_env (Suc 0) demo_routine ?s
     = Some \<lparr>input = [tok tc_semicolon, tok tc_semicolon, tok tc_semicolon, ident ''b'',
                       tok tc_right_bracket],
              icode = [line_marker, token_unit (ident ''a'')], errors = [], marker_calls = []\<rparr>"
    by (simp add: run_defs)
  show ?thesis
    using parse_statement_list_driver [OF a, of "Suc 0" tc_right_bracket] a
    by (simp add: run_defs)
qed

section \<open>Streams that only grow, and balanced marker calls\<close>

lemma reserved_append [simp]: "reserved (xs @ ys) = reserved xs @ reserved ys"
  by (induction xs rule: reserved.induct) simp_all

lemma fixed_append [simp]: "fixed (xs @ ys) = fixed xs @ fixed ys"
  by (induction xs rule: fixed.induct) simp_all

lemma balanced_Nil [simp]: "balanced []"
  by (simp add: balanced_def)

lemma appends_only_refl [simp]: "appends_only s s"
  by (simp add: appends_only_def)

lemma appends_only_trans: "appends_only s t \<Longrightarrow> appends_only t u \<Longrightarrow> appends_only s u"
  by (auto simp: appends_only_def)

lemma appends_only_get_token [simp]: "appends_only s (get_token s)"
  by (simp add: appends_only_def)

lemma appends_only_get_token_append [simp]: "appends_only s (get_token_append s)"
  by (simp add: appends_only_def)

lemma appends_only_conditional [simp]:
  "appends_only s (conditional_get_token_append tc ec s)"
  by (simp add: appends_only_def)

lemma appends_only_cx_error [simp]: "appends_only s (cx_error ec s)"
  by (simp add: appends_only_def)

lemma appends_only_check_boolean [simp]: "appends_only s (check_boolean env ty s)"
  by (simp add: appends_only_def)

lemma appends_only_insert_line_marker [simp]: "appends_only s (insert_line_marker s)"
  by (simp add: appends_only_def)

lemma appends_only_semicolon_loop [simp]: "appends_only s (semicolon_loop s)"
  using semicolon_loop_icode [of s] by (simp add: appends_only_def)

lemma appends_only_resync [simp]: "appends_only s (resync l1 l2 s)"
  by (simp add: appends_only_def)

lemma well_behaved_expression:
  "well_behaved env \<Longrightarrow> parse_expression env s = (ty, t) \<Longrightarrow> appends_only s t"
  unfolding well_behaved_def by (metis snd_conv)

lemma well_behaved_others:
  assumes "well_behaved env"
  shows "appends_only s (parse_declarations_or_assignment env f s)"
    and "appends_only s (parse_constant_declaration env f s)"
    and "appends_only s (parse_execute_directive env f s)"
    and "appends_only s (snd (parse_expression env s))"
  using assms by (simp_all add: well_behaved_def)

lemma appends_only_parse_RETURN:
  assumes "well_behaved env"
  shows "appends_only s (parse_RETURN env f s)"
proof -
  obtain ty t where e: "parse_expression env (get_token_append s) = (ty, t)"
    by (cases "parse_expression env (get_token_append s)")
  have "appends_only s t"
    using appends_only_get_token_append well_behaved_expression [OF assms e]
    by (rule appends_only_trans)
  moreover have "appends_only t (parse_RETURN env f s)"
    using e by (simp add: parse_RETURN_def check_assignment_type_compatible_def)
  ultimately show ?thesis by (rule appends_only_trans)
qed

lemma extends_refl [simp]: "extends s s"
  by (simp add: extends_def)

lemma appends_only_extends: "appends_only s t \<Longrightarrow> extends s t"
  by (auto simp: appends_only_def extends_def)

lemma extends_trans:
  assumes "extends s t" and "extends t u"
  shows "extends s u"
proof -
  from assms(1) obtain ic1 cs1 where 1: "icode t = icode s @ ic1"
    "marker_calls t = marker_calls s @ cs1" "balanced cs1"
    "list_all (\<lambda>m. length (icode s) \<le> m \<and> m < length (icode t)) (reserved cs1)"
    by (auto simp: extends_def)
  from assms(2) obtain ic2 cs2 where 2: "icode u = icode t @ ic2"
    "marker_calls u = marker_calls t @ cs2" "balanced cs2"
    "list_all (\<lambda>m. length (icode t) \<le> m \<and> m < length (icode u)) (reserved cs2)"
    by (auto simp: extends_def)
  have d: "set (reserved cs1) \<inter> set (reserved cs2) = {}"
    using 1(4) 2(4) by (fastforce simp: list_all_iff)
  have "balanced (cs1 @ cs2)"
    using 1(3) 2(3) d by (simp add: balanced_def)
  moreover have "list_all (\<lambda>m. length (icode s) \<le> m \<and> m < length (icode u))
                   (reserved (cs1 @ cs2))"
    using 1(1,4) 2(1,4) by (auto simp: list_all_iff)
  ultimately show ?thesis
    unfolding extends_def using 1(1,2) 2(1,2)
    by (intro exI [of _ "ic1 @ ic2"] exI [of _ "cs1 @ cs2"]) simp
qed

lemma extends_appends: "extends s t \<Longrightarrow> appends_only t u \<Longrightarrow> extends s u"
  by (blast intro: extends_trans appends_only_extends)

lemma appends_extends: "appends_only s t \<Longrightarrow> extends t u \<Longrightarrow> extends s u"
  by (blast intro: extends_trans appends_only_extends)

text \<open>A marker reserved first and fixed up last encloses what happens in between.\<close>

lemma extends_calls:
  assumes "extends t u"
  obtains ic cs where "icode u = icode t @ ic" "marker_calls u = marker_calls t @ cs"
    "balanced cs" "list_all (\<lambda>m. length (icode t) \<le> m) (reserved cs)"
    "list_all (\<lambda>m. m < length (icode u)) (reserved cs)"
  using assms by (auto simp: extends_def list_all_iff)

lemma extends_marker:
  assumes "extends (snd (put_location_marker s)) t"
  shows "extends s (fixup_location_marker (length (icode s)) t)"
proof -
  from assms obtain ic cs where *: "icode t = icode s @ location_marker None # ic"
    "marker_calls t = marker_calls s @ reserve_call (length (icode s)) # cs" "balanced cs"
    "list_all (\<lambda>m. Suc (length (icode s)) \<le> m) (reserved cs)"
    "list_all (\<lambda>m. m < length (icode t)) (reserved cs)"
    by (auto elim!: extends_calls)
  let ?cs = "reserve_call (length (icode s)) # cs @ [fixup_call (length (icode s))]"
  have "balanced ?cs"
    using *(3,4) by (auto simp: balanced_def list_all_iff)
  moreover have "list_all (\<lambda>m. length (icode s) \<le> m \<and> m < length (icode t)) (reserved ?cs)"
    using *(1,4,5) by (auto simp: list_all_iff)
  ultimately show ?thesis
    unfolding extends_def using *(1,2)
    by (intro exI [of _ "location_marker (Some (length (icode t))) # ic"] exI [of _ ?cs])
       (simp add: list_update_append)
qed

lemma stmt_okD: "stmt_ok stmt \<Longrightarrow> stmt f s = Some s' \<Longrightarrow> extends s s'"
  by (simp add: stmt_ok_def)

lemma parse_statement_list_extends:
  "stmt_ok stmt \<Longrightarrow> parse_statement_list k stmt f terminator s = Some s' \<Longrightarrow> extends s s'"
proof (induction k arbitrary: s)
  case 0
  then show ?case by simp
next
  case (Suc k)
  from Suc.prems(2) obtain s1 where s1: "stmt f s = Some s1"
    by (auto split: option.splits)
  have e: "extends s (semicolon_loop s1)"
    using stmt_okD [OF Suc.prems(1) s1] by (rule extends_appends) simp
  show ?case
  proof (cases "token (semicolon_loop s1) \<noteq> terminator
                 \<and> token (semicolon_loop s1) \<noteq> tc_end_of_file")
    case True
    with Suc.prems(2) s1
    have "parse_statement_list k stmt f terminator (semicolon_loop s1) = Some s'"
      by simp
    from e Suc.IH [OF Suc.prems(1) this] show ?thesis by (rule extends_trans)
  next
    case False
    with Suc.prems(2) s1 have "s' = semicolon_loop s1" by auto
    with e show ?thesis by simp
  qed
qed


lemma appends_only_steps:
  "appends_only s t \<Longrightarrow> appends_only s (get_token t)"
  "appends_only s t \<Longrightarrow> appends_only s (get_token_append t)"
  "appends_only s t \<Longrightarrow> appends_only s (conditional_get_token_append tc ec t)"
  "appends_only s t \<Longrightarrow> appends_only s (cx_error ec t)"
  "appends_only s t \<Longrightarrow> appends_only s (check_boolean env ty t)"
  "appends_only s t \<Longrightarrow> appends_only s (insert_line_marker t)"
  "appends_only s t \<Longrightarrow> appends_only s (semicolon_loop t)"
  "appends_only s t \<Longrightarrow> appends_only s (resync l1 l2 t)"
  by (erule appends_only_trans, simp)+

lemma appends_only_env_steps:
  assumes "well_behaved env"
  shows "appends_only s t \<Longrightarrow> appends_only s (snd (parse_expression env t))"
    and "appends_only s t \<Longrightarrow> appends_only s (parse_declarations_or_assignment env f t)"
    and "appends_only s t \<Longrightarrow> appends_only s (parse_constant_declaration env f t)"
    and "appends_only s t \<Longrightarrow> appends_only s (parse_execute_directive env f t)"
    and "appends_only s t \<Longrightarrow> appends_only s (parse_RETURN env f t)"
  by (erule appends_only_trans, simp add: well_behaved_others [OF assms]
        appends_only_parse_RETURN [OF assms])+

lemma appends_only_if:
  "appends_only s a \<Longrightarrow> appends_only s b \<Longrightarrow> appends_only s (if c then a else b)"
  by simp

lemma appends_only_length: "appends_only s t \<Longrightarrow> length (icode s) \<le> length (icode t)"
  by (auto simp: appends_only_def)

lemma extends_length: "extends s t \<Longrightarrow> length (icode s) \<le> length (icode t)"
  by (auto simp: extends_def)

lemma extends_marker_calls:
  assumes "extends (snd (put_location_marker s)) u"
  shows "\<exists>cs. marker_calls (fixup_location_marker (length (icode s)) u) =
                 marker_calls s @ reserve_call (length (icode s)) # cs
                   @ [fixup_call (length (icode s))]
              \<and> nested (length (icode s)) cs
              \<and> list_all (\<lambda>m. m < length (icode u)) (reserved cs)"
proof -
  from assms obtain ic cs where *:
    "marker_calls u = marker_calls s @ reserve_call (length (icode s)) # cs" "balanced cs"
    "list_all (\<lambda>m. Suc (length (icode s)) \<le> m) (reserved cs)"
    "list_all (\<lambda>m. m < length (icode u)) (reserved cs)"
    by (auto elim!: extends_calls)
  then show ?thesis
    by (intro exI [of _ cs]) (auto simp: nested_def list_all_iff)
qed

subsection \<open>While, do and if\<close>

lemma parse_WHILE_body:
  assumes "well_behaved env" and "parse_WHILE env stmt f s = Some s'"
  obtains s6 s7 where "appends_only (snd (put_location_marker s)) s6"
    and "stmt f s6 = Some s7" and "s' = fixup_location_marker (length (icode s)) s7"
proof -
  define s6 where "s6 =
    conditional_get_token_append tc_right_paren err_missing_right_paren
      (check_boolean env
         (fst (parse_expression env
            (conditional_get_token_append tc_left_paren err_missing_left_paren
               (get_token_append (snd (put_location_marker s))))))
         (snd (parse_expression env
            (conditional_get_token_append tc_left_paren err_missing_left_paren
               (get_token_append (snd (put_location_marker s)))))))"
  have a: "appends_only (snd (put_location_marker s)) s6"
    unfolding s6_def
    by (intro appends_only_steps appends_only_env_steps [OF assms(1)] appends_only_refl)
  from assms(2) obtain s7 where "stmt f s6 = Some s7"
    "s' = fixup_location_marker (length (icode s)) s7"
    by (auto simp: parse_WHILE_def Let_def split_beta s6_def split: option.splits)
  with a that show thesis by blast
qed

lemma parse_WHILE_extends:
  assumes "well_behaved env" and "stmt_ok stmt" and "parse_WHILE env stmt f s = Some s'"
  shows "extends s s'"
proof -
  from assms(1,3) obtain s6 s7 where a: "appends_only (snd (put_location_marker s)) s6"
    and b: "stmt f s6 = Some s7" and c: "s' = fixup_location_marker (length (icode s)) s7"
    by (rule parse_WHILE_body)
  from a stmt_okD [OF assms(2) b] have "extends (snd (put_location_marker s)) s7"
    by (rule appends_extends)
  then show ?thesis unfolding c by (rule extends_marker)
qed

lemma parse_DO_body:
  assumes "well_behaved env" and "parse_DO env stmts f s = Some s'"
  obtains s3 s8 where
    "stmts f tc_WHILE (get_token_append (snd (put_location_marker s))) = Some s3"
    and "appends_only s3 s8" and "s' = fixup_location_marker (length (icode s)) s8"
proof -
  from assms(2) obtain s3 where
    l: "stmts f tc_WHILE (get_token_append (snd (put_location_marker s))) = Some s3"
    by (auto simp: parse_DO_def Let_def split_beta split: option.splits)
  define s8 where "s8 =
    conditional_get_token_append tc_right_paren err_missing_right_paren
      (check_boolean env
         (fst (parse_expression env
            (conditional_get_token_append tc_left_paren err_missing_left_paren
               (conditional_get_token_append tc_WHILE err_missing_WHILE s3))))
         (snd (parse_expression env
            (conditional_get_token_append tc_left_paren err_missing_left_paren
               (conditional_get_token_append tc_WHILE err_missing_WHILE s3)))))"
  have a: "appends_only s3 s8"
    unfolding s8_def
    by (intro appends_only_steps appends_only_env_steps [OF assms(1)] appends_only_refl)
  from assms(2) l have "s' = fixup_location_marker (length (icode s)) s8"
    by (simp add: parse_DO_def Let_def split_beta s8_def)
  with l a that show thesis by blast
qed

lemma parse_DO_extends:
  assumes "well_behaved env" and "stmts_ok stmts" and "parse_DO env stmts f s = Some s'"
  shows "extends s s'"
proof -
  from assms(1,3) obtain s3 s8 where
    l: "stmts f tc_WHILE (get_token_append (snd (put_location_marker s))) = Some s3"
    and a: "appends_only s3 s8" and c: "s' = fixup_location_marker (length (icode s)) s8"
    by (rule parse_DO_body)
  from assms(2) l have "extends (get_token_append (snd (put_location_marker s))) s3"
    by (simp add: stmts_ok_def)
  with appends_only_get_token_append have "extends (snd (put_location_marker s)) s3"
    by (rule appends_extends)
  from this a have "extends (snd (put_location_marker s)) s8"
    by (rule extends_appends)
  then show ?thesis unfolding c by (rule extends_marker)
qed

lemma parse_compound_extends:
  assumes "stmts_ok stmts" and "parse_compound stmts f s = Some s'"
  shows "extends s s'"
proof -
  from assms(2) obtain s2 where
    l: "stmts f tc_right_bracket (get_token_append s) = Some s2"
    and c: "s' = s2 \<or> s' = conditional_get_token_append tc_right_bracket
                               err_missing_right_bracket s2"
    by (auto simp: parse_compound_def Let_def split: option.splits if_splits)
  from assms(1) l have "extends (get_token_append s) s2"
    by (simp add: stmts_ok_def)
  with appends_only_get_token_append have e: "extends s s2"
    by (rule appends_extends)
  from c show ?thesis
  proof
    assume "s' = s2" with e show ?thesis by simp
  next
    assume "s' = conditional_get_token_append tc_right_bracket err_missing_right_bracket s2"
    with e show ?thesis by (auto intro: extends_appends)
  qed
qed

lemma parse_SWITCH_extends:
  assumes "well_behaved env" and "stmt_ok stmt" and "parse_SWITCH env stmt f s = Some s'"
  shows "extends s s'"
proof -
  define s4 where "s4 =
    conditional_get_token_append tc_right_paren err_missing_right_paren
      (snd (parse_expression env
         (conditional_get_token_append tc_left_paren err_missing_left_paren
            (get_token_append s))))"
  have a: "appends_only s s4"
    unfolding s4_def
    by (intro appends_only_steps appends_only_env_steps [OF assms(1)] appends_only_refl)
  from assms(3) have "stmt f s4 = Some s' \<or> stmt f (cx_error err_incompatible_types s4) = Some s'"
    by (auto simp: parse_SWITCH_def Let_def split_beta s4_def split: if_splits)
  then show ?thesis
  proof
    assume "stmt f s4 = Some s'"
    from a stmt_okD [OF assms(2) this] show ?thesis by (rule appends_extends)
  next
    assume "stmt f (cx_error err_incompatible_types s4) = Some s'"
    from appends_only_steps(4) [OF a] stmt_okD [OF assms(2) this] show ?thesis
      by (rule appends_extends)
  qed
qed


lemma parse_IF_body:
  assumes "well_behaved env" and "parse_IF env stmt f s = Some s'"
  obtains (no_else) s6 s7 where "appends_only (snd (put_location_marker s)) s6"
      and "stmt f s6 = Some s7" and "token (semicolon_loop s7) \<noteq> tc_ELSE"
      and "s' = fixup_location_marker (length (icode s)) (semicolon_loop s7)"
  | (with_else) s6 s7 s9 s12 where "appends_only (snd (put_location_marker s)) s6"
      and "stmt f s6 = Some s7" and "token (semicolon_loop s7) = tc_ELSE"
      and "s9 = fixup_location_marker (length (icode s)) (semicolon_loop s7)"
      and "stmt f (get_token_append (snd (put_location_marker s9))) = Some s12"
      and "s' = fixup_location_marker (length (icode s9)) (semicolon_loop s12)"
proof -
  define s6 where "s6 =
    conditional_get_token_append tc_right_paren err_missing_right_paren
      (check_boolean env
         (fst (parse_expression env
            (conditional_get_token_append tc_left_paren err_missing_left_paren
               (get_token_append (snd (put_location_marker s))))))
         (snd (parse_expression env
            (conditional_get_token_append tc_left_paren err_missing_left_paren
               (get_token_append (snd (put_location_marker s)))))))"
  have a: "appends_only (snd (put_location_marker s)) s6"
    unfolding s6_def
    by (intro appends_only_steps appends_only_env_steps [OF assms(1)] appends_only_refl)
  from assms(2) obtain s7 where 7: "stmt f s6 = Some s7"
    by (auto simp: parse_IF_def Let_def split_beta s6_def split: option.splits)
  define s9 where "s9 = fixup_location_marker (length (icode s)) (semicolon_loop s7)"
  show thesis
  proof (cases "token (semicolon_loop s7) = tc_ELSE")
    case False
    with assms(2) 7 have "s' = fixup_location_marker (length (icode s)) (semicolon_loop s7)"
      by (simp add: parse_IF_def Let_def split_beta s6_def [symmetric])
    with a 7 False show thesis by (rule no_else)
  next
    case True
    with assms(2) 7 obtain s12 where
      "stmt f (get_token_append (snd (put_location_marker s9))) = Some s12"
      "s' = fixup_location_marker (length (icode s9)) (semicolon_loop s12)"
      by (auto simp: parse_IF_def Let_def split_beta s6_def [symmetric] s9_def
               split: option.splits)
    with a 7 True s9_def show thesis by (rule with_else)
  qed
qed

lemma parse_IF_extends:
  assumes "well_behaved env" and "stmt_ok stmt" and "parse_IF env stmt f s = Some s'"
  shows "extends s s'"
  using assms(1,3)
proof (cases rule: parse_IF_body)
  case (no_else s6 s7)
  from no_else(1) stmt_okD [OF assms(2) no_else(2)]
  have "extends (snd (put_location_marker s)) s7" by (rule appends_extends)
  then have "extends (snd (put_location_marker s)) (semicolon_loop s7)"
    by (rule extends_appends) simp
  then show ?thesis unfolding no_else(4) by (rule extends_marker)
next
  case (with_else s6 s7 s9 s12)
  from with_else(1) stmt_okD [OF assms(2) with_else(2)]
  have "extends (snd (put_location_marker s)) s7" by (rule appends_extends)
  then have "extends (snd (put_location_marker s)) (semicolon_loop s7)"
    by (rule extends_appends) simp
  then have 1: "extends s s9" unfolding with_else(4) by (rule extends_marker)
  from appends_only_get_token_append stmt_okD [OF assms(2) with_else(5)]
  have "extends (snd (put_location_marker s9)) s12" by (rule appends_extends)
  then have "extends (snd (put_location_marker s9)) (semicolon_loop s12)"
    by (rule extends_appends) simp
  then have "extends s9 s'" unfolding with_else(6) by (rule extends_marker)
  with 1 show ?thesis by (rule extends_trans)
qed

subsection \<open>The for loop\<close>

lemma parse_FOR_body:
  assumes "well_behaved env" and "parse_FOR env stmt f s = Some s'"
  obtains s4 s7 s9 s12 s14 where
    "s4 = snd (put_location_marker (snd (put_location_marker
            (snd (put_location_marker (snd (put_location_marker s)))))))"
    and "appends_only s4 s7"
    and "appends_only (fixup_location_marker (Suc (Suc (length (icode s)))) s7) s9"
    and "appends_only (fixup_location_marker (Suc (Suc (Suc (length (icode s))))) s9) s12"
    and "stmt f (fixup_location_marker (Suc (length (icode s))) s12) = Some s14"
    and "s' = fixup_location_marker (length (icode s)) s14"
proof -
  define p1 where "p1 = put_location_marker s"
  define p2 where "p2 = put_location_marker (snd p1)"
  define p3 where "p3 = put_location_marker (snd p2)"
  define p4 where "p4 = put_location_marker (snd p3)"
  define s6 where "s6 = conditional_get_token_append tc_left_paren err_missing_left_paren
                          (get_token_append (snd p4))"
  define s7 where "s7 =
    (if token s6 \<noteq> tc_semicolon
     then conditional_get_token_append tc_semicolon err_missing_semicolon
            (parse_declarations_or_assignment env f s6)
     else get_token_append s6)"
  define s8 where "s8 = fixup_location_marker (fst p3) s7"
  define s9 where "s9 =
    (if token s8 \<noteq> tc_semicolon
     then conditional_get_token_append tc_semicolon err_missing_semicolon
            (check_boolean env (fst (parse_expression env s8)) (snd (parse_expression env s8)))
     else get_token_append s8)"
  define s10 where "s10 = fixup_location_marker (fst p4) s9"
  define s12 where "s12 =
    conditional_get_token_append tc_right_paren err_missing_right_paren
      (if token s10 \<noteq> tc_right_paren then snd (parse_expression env s10) else s10)"
  have 7: "appends_only (snd p4) s7"
    unfolding s7_def s6_def
    by (intro appends_only_if appends_only_steps appends_only_env_steps [OF assms(1)]
          appends_only_refl)
  have 9: "appends_only s8 s9"
    unfolding s9_def
    by (intro appends_only_if appends_only_steps appends_only_env_steps [OF assms(1)]
          appends_only_refl)
  have 12: "appends_only s10 s12"
    unfolding s12_def
    by (intro appends_only_if appends_only_steps appends_only_env_steps [OF assms(1)]
          appends_only_refl)
  have unfolded: "parse_FOR env stmt f s =
          (case stmt f (fixup_location_marker (fst p2) s12) of
             None \<Rightarrow> None
           | Some s14 \<Rightarrow> Some (fixup_location_marker (fst p1) s14))"
    unfolding parse_FOR_def Let_def split_beta
      s12_def s10_def s9_def s8_def s7_def s6_def p4_def p3_def p2_def p1_def ..
  have m: "fst p1 = length (icode s)" "fst p2 = Suc (length (icode s))"
    "fst p3 = Suc (Suc (length (icode s)))" "fst p4 = Suc (Suc (Suc (length (icode s))))"
    by (simp_all add: p1_def p2_def p3_def p4_def)
  have 4: "snd p4 = snd (put_location_marker (snd (put_location_marker
            (snd (put_location_marker (snd (put_location_marker s)))))))"
    by (simp add: p1_def p2_def p3_def p4_def)
  from assms(2) unfolded obtain s14 where
    "stmt f (fixup_location_marker (Suc (length (icode s))) s12) = Some s14"
    "s' = fixup_location_marker (length (icode s)) s14"
    by (auto simp: m split: option.splits)
  with that [OF 4 7 9 [unfolded s8_def m] 12 [unfolded s10_def m]] show thesis
    by blast
qed


lemma prefix_kept_appends:
  "appends_only t u \<Longrightarrow> n \<le> length (icode t) \<Longrightarrow> take n (icode u) = take n (icode t)"
  by (auto simp: appends_only_def)

lemma prefix_kept_extends:
  "extends t u \<Longrightarrow> n \<le> length (icode t) \<Longrightarrow> take n (icode u) = take n (icode t)"
  by (auto simp: extends_def)

lemma parse_FOR_calls:
  assumes "well_behaved env" and "stmt_ok stmt" and "parse_FOR env stmt f s = Some s'"
  shows "\<exists>cs. marker_calls s' =
           marker_calls s
           @ [reserve_call (length (icode s)), reserve_call (Suc (length (icode s))),
              reserve_call (Suc (Suc (length (icode s)))),
              reserve_call (Suc (Suc (Suc (length (icode s))))),
              fixup_call (Suc (Suc (length (icode s)))),
              fixup_call (Suc (Suc (Suc (length (icode s))))),
              fixup_call (Suc (length (icode s)))]
           @ cs @ [fixup_call (length (icode s))]
         \<and> nested (Suc (Suc (Suc (length (icode s))))) cs
         \<and> list_all (\<lambda>m. m < length (icode s')) (reserved cs)
         \<and> take (length (icode s)) (icode s') = icode s
         \<and> length (icode s) + 4 \<le> length (icode s')"
proof -
  let ?L = "length (icode s)"
  from assms(1,3) obtain s4 s7 s9 s12 s14 where
    4: "s4 = snd (put_location_marker (snd (put_location_marker
            (snd (put_location_marker (snd (put_location_marker s)))))))"
    and 7: "appends_only s4 s7"
    and 9: "appends_only (fixup_location_marker (Suc (Suc ?L)) s7) s9"
    and 12: "appends_only (fixup_location_marker (Suc (Suc (Suc ?L))) s9) s12"
    and 14: "stmt f (fixup_location_marker (Suc ?L) s12) = Some s14"
    and s': "s' = fixup_location_marker ?L s14"
    by (rule parse_FOR_body)
  have c4: "marker_calls s4 = marker_calls s @ [reserve_call ?L, reserve_call (Suc ?L),
              reserve_call (Suc (Suc ?L)), reserve_call (Suc (Suc (Suc ?L)))]"
    and i4: "icode s4 = icode s @ [location_marker None, location_marker None,
              location_marker None, location_marker None]"
    by (simp_all add: 4)
  have l4: "length (icode s4) = ?L + 4" and t4: "take ?L (icode s4) = icode s"
    by (simp_all add: i4)
  have l7: "?L + 4 \<le> length (icode s7)" and t7: "take ?L (icode s7) = icode s"
    and c7: "marker_calls s7 = marker_calls s4"
    using appends_only_length [OF 7] prefix_kept_appends [OF 7, of ?L] l4 t4 7
    by (simp_all add: appends_only_def)
  have l9: "?L + 4 \<le> length (icode s9)" and t9: "take ?L (icode s9) = icode s"
    and c9: "marker_calls s9 = marker_calls s7 @ [fixup_call (Suc (Suc ?L))]"
    using appends_only_length [OF 9] prefix_kept_appends [OF 9, of ?L] l7 t7 9
    by (simp_all add: appends_only_def)
  have l12: "?L + 4 \<le> length (icode s12)" and t12: "take ?L (icode s12) = icode s"
    and c12: "marker_calls s12 = marker_calls s9 @ [fixup_call (Suc (Suc (Suc ?L)))]"
    using appends_only_length [OF 12] prefix_kept_appends [OF 12, of ?L] l9 t9 12
    by (simp_all add: appends_only_def)
  from stmt_okD [OF assms(2) 14] obtain ic cs where
    e: "icode s14 = icode (fixup_location_marker (Suc ?L) s12) @ ic"
       "marker_calls s14 = marker_calls (fixup_location_marker (Suc ?L) s12) @ cs"
       "balanced cs"
       "list_all (\<lambda>m. length (icode (fixup_location_marker (Suc ?L) s12)) \<le> m) (reserved cs)"
       "list_all (\<lambda>m. m < length (icode s14)) (reserved cs)"
    by (rule extends_calls)
  have l14: "?L + 4 \<le> length (icode s14)" and t14: "take ?L (icode s14) = icode s"
    using e(1) l12 t12 by simp_all
  have n: "nested (Suc (Suc (Suc ?L))) cs"
    using e(3,4) l12 by (auto simp: nested_def list_all_iff)
  show ?thesis
    using e(2,5) n l14 t14
    by (intro exI [of _ cs]) (simp add: s' c12 c9 c7 c4)
qed

lemma parse_FOR_extends:
  assumes "well_behaved env" and "stmt_ok stmt" and "parse_FOR env stmt f s = Some s'"
  shows "extends s s'"
proof -
  let ?L = "length (icode s)"
  from parse_FOR_calls [OF assms] obtain cs where
    c: "marker_calls s' =
           marker_calls s
           @ [reserve_call ?L, reserve_call (Suc ?L), reserve_call (Suc (Suc ?L)),
              reserve_call (Suc (Suc (Suc ?L))), fixup_call (Suc (Suc ?L)),
              fixup_call (Suc (Suc (Suc ?L))), fixup_call (Suc ?L)]
           @ cs @ [fixup_call ?L]"
    and n: "nested (Suc (Suc (Suc ?L))) cs"
    and b: "list_all (\<lambda>m. m < length (icode s')) (reserved cs)"
    and t: "take ?L (icode s') = icode s" and l: "?L + 4 \<le> length (icode s')"
    by blast
  let ?cs = "[reserve_call ?L, reserve_call (Suc ?L), reserve_call (Suc (Suc ?L)),
              reserve_call (Suc (Suc (Suc ?L))), fixup_call (Suc (Suc ?L)),
              fixup_call (Suc (Suc (Suc ?L))), fixup_call (Suc ?L)]
           @ cs @ [fixup_call ?L]"
  have "icode s' = icode s @ drop ?L (icode s')"
    using t by (metis append_take_drop_id)
  moreover have "balanced ?cs"
    using n by (auto simp: nested_def balanced_def list_all_iff)
  moreover have "list_all (\<lambda>m. ?L \<le> m \<and> m < length (icode s')) (reserved ?cs)"
    using n b l by (auto simp: nested_def list_all_iff)
  ultimately show ?thesis
    unfolding extends_def using c by blast
qed

subsection \<open>Every statement\<close>

lemma parse_statement_ok:
  assumes "well_behaved env"
  shows "stmt_ok (parse_statement env n)"
proof (induction n)
  case 0
  show ?case by (simp add: stmt_ok_def)
next
  case (Suc n)
  have lok: "stmts_ok (parse_statement_list n (parse_statement env n))"
    unfolding stmts_ok_def using parse_statement_list_extends [OF Suc] by blast
  note forms = parse_DO_extends [OF assms lok] parse_WHILE_extends [OF assms Suc]
    parse_IF_extends [OF assms Suc] parse_FOR_extends [OF assms Suc]
    parse_SWITCH_extends [OF assms Suc] parse_compound_extends [OF lok]
  note colls = appends_only_env_steps [OF assms appends_only_refl]
  show ?case
    unfolding stmt_ok_def
  proof (intro allI impI)
    fix f s s'
    assume r: "parse_statement env (Suc n) f s = Some s'"
    define s0 where "s0 = insert_line_marker s"
    define disp where "disp =
           (case token s0 of
              tc_identifier \<Rightarrow> Some (parse_declarations_or_assignment env f s0)
            | tc_CONST \<Rightarrow> Some (parse_constant_declaration env f (get_token_append s0))
            | tc_DO \<Rightarrow> parse_DO env (parse_statement_list n (parse_statement env n)) f s0
            | tc_WHILE \<Rightarrow> parse_WHILE env (parse_statement env n) f s0
            | tc_IF \<Rightarrow> parse_IF env (parse_statement env n) f s0
            | tc_FOR \<Rightarrow> parse_FOR env (parse_statement env n) f s0
            | tc_SWITCH \<Rightarrow> parse_SWITCH env (parse_statement env n) f s0
            | tc_BREAK \<Rightarrow> Some (get_token_append s0)
            | tc_left_bracket \<Rightarrow>
                parse_compound (parse_statement_list n (parse_statement env n)) f s0
            | tc_RETURN \<Rightarrow> Some (parse_RETURN env f s0)
            | tc_pound \<Rightarrow> Some (parse_execute_directive env f (get_token s0))
            | _ \<Rightarrow> Some s0)"
    have "parse_statement env (Suc n) f s =
            (case disp of
               None \<Rightarrow> None
             | Some s1 \<Rightarrow>
                 Some (if token s1 \<noteq> tc_end_of_file
                       then resync (tokenlist_statement_follow env)
                              (tokenlist_statement_start env) s1
                       else s1))"
      unfolding parse_statement.simps Let_def disp_def s0_def ..
    with r obtain s1 where d: "disp = Some s1"
      and s': "s' = (if token s1 \<noteq> tc_end_of_file
                     then resync (tokenlist_statement_follow env)
                            (tokenlist_statement_start env) s1
                     else s1)"
      by (auto split: option.splits)
    have "extends s0 s1"
    proof (cases "token s0")
      case tc_identifier
      with d colls(2) [of s0 f] show ?thesis
        by (auto simp: disp_def intro: appends_only_extends)
    next
      case tc_CONST
      with d appends_only_env_steps(3) [OF assms appends_only_get_token_append, of s0 f]
      show ?thesis by (auto simp: disp_def intro: appends_only_extends)
    next
      case tc_RETURN
      with d colls(5) [of s0 f] show ?thesis
        by (auto simp: disp_def intro: appends_only_extends)
    next
      case tc_pound
      with d appends_only_env_steps(4) [OF assms appends_only_get_token, of s0 f]
      show ?thesis by (auto simp: disp_def intro: appends_only_extends)
    next
      case tc_BREAK
      with d show ?thesis by (auto simp: disp_def intro: appends_only_extends)
    qed (use d forms in \<open>auto simp: disp_def\<close>)
    with appends_only_insert_line_marker have "extends s s1"
      unfolding s0_def by (rule appends_extends)
    then show "extends s s'"
      unfolding s' by (auto intro: extends_appends)
  qed
qed


section \<open>Marker balance\<close>

lemma nested_enclosed:
  "nested L cs \<Longrightarrow> balanced (reserve_call L # cs @ [fixup_call L])"
  by (auto simp: nested_def balanced_def list_all_iff)

lemma parse_WHILE_calls:
  assumes "well_behaved env" and "stmt_ok stmt" and "parse_WHILE env stmt f s = Some s'"
  shows "\<exists>cs. marker_calls s' =
                 marker_calls s @ reserve_call (length (icode s)) # cs
                   @ [fixup_call (length (icode s))]
              \<and> nested (length (icode s)) cs"
proof -
  from assms(1,3) obtain s6 s7 where a: "appends_only (snd (put_location_marker s)) s6"
    and b: "stmt f s6 = Some s7" and c: "s' = fixup_location_marker (length (icode s)) s7"
    by (rule parse_WHILE_body)
  from a stmt_okD [OF assms(2) b] have "extends (snd (put_location_marker s)) s7"
    by (rule appends_extends)
  from extends_marker_calls [OF this] show ?thesis unfolding c by blast
qed

lemma parse_DO_calls:
  assumes "well_behaved env" and "stmts_ok stmts" and "parse_DO env stmts f s = Some s'"
  shows "\<exists>cs. marker_calls s' =
                 marker_calls s @ reserve_call (length (icode s)) # cs
                   @ [fixup_call (length (icode s))]
              \<and> nested (length (icode s)) cs"
proof -
  from assms(1,3) obtain s3 s8 where
    l: "stmts f tc_WHILE (get_token_append (snd (put_location_marker s))) = Some s3"
    and a: "appends_only s3 s8" and c: "s' = fixup_location_marker (length (icode s)) s8"
    by (rule parse_DO_body)
  from assms(2) l have "extends (get_token_append (snd (put_location_marker s))) s3"
    by (simp add: stmts_ok_def)
  with appends_only_get_token_append have "extends (snd (put_location_marker s)) s3"
    by (rule appends_extends)
  from this a have "extends (snd (put_location_marker s)) s8"
    by (rule extends_appends)
  from extends_marker_calls [OF this] show ?thesis unfolding c by blast
qed

text \<open>The layout of the stream after an \<^verbatim>\<open>if\<close> with an \<^verbatim>\<open>else\<close>.\<close>

lemma parse_IF_else_layout:
  assumes "stmt_ok stmt"
    and a: "appends_only (snd (put_location_marker s)) s6"
    and 7: "stmt f s6 = Some s7"
    and 9: "s9 = fixup_location_marker (length (icode s)) (semicolon_loop s7)"
    and 12: "stmt f (get_token_append (snd (put_location_marker s9))) = Some s12"
    and s': "s' = fixup_location_marker (length (icode s9)) (semicolon_loop s12)"
  shows "length (icode s) < length (icode s9)"
    and "length (icode s9) = length (icode (semicolon_loop s7))"
    and "length (icode s') = length (icode (semicolon_loop s12))"
    and "length (icode (get_token_append (snd (put_location_marker s9)))) = length (icode s9) + 2"
    and "length (icode s9) + 2 \<le> length (icode s')"
    and "icode s' ! length (icode s) = location_marker (Some (length (icode s9)))"
    and "icode s' ! length (icode s9) = location_marker (Some (length (icode s')))"
    and "icode s' ! Suc (length (icode s9)) = token_unit (p_token (semicolon_loop s7))"
    and "drop (length (icode s9) + 2) (icode s') =
           drop (length (icode s9) + 2) (icode (semicolon_loop s12))"
    and "\<exists>cs1 cs2. marker_calls s' =
           marker_calls s @ reserve_call (length (icode s)) # cs1
             @ [fixup_call (length (icode s)), reserve_call (length (icode s9))] @ cs2
             @ [fixup_call (length (icode s9))]
         \<and> nested (length (icode s)) cs1
         \<and> list_all (\<lambda>m. m < length (icode s9)) (reserved cs1)
         \<and> nested (length (icode s9)) cs2"
proof -
  let ?L = "length (icode s)" and ?M = "length (icode s9)"
  let ?s11 = "get_token_append (snd (put_location_marker s9))"
  from a stmt_okD [OF assms(1) 7] have "extends (snd (put_location_marker s)) s7"
    by (rule appends_extends)
  then have e1: "extends (snd (put_location_marker s)) (semicolon_loop s7)"
    by (rule extends_appends) simp
  then obtain ic1 where i8: "icode (semicolon_loop s7) = icode s @ location_marker None # ic1"
    by (auto simp: extends_def)
  have lM: "?M = length (icode (semicolon_loop s7))" by (simp add: 9)
  have i9: "icode s9 =
              icode s @ location_marker (Some (length (icode (semicolon_loop s7)))) # ic1"
    by (simp add: 9 i8 list_update_append)
  show lt: "?L < ?M" by (simp add: lM i8)
  show "?M = length (icode (semicolon_loop s7))" by (fact lM)
  show ls': "length (icode s') = length (icode (semicolon_loop s12))" by (simp add: s')
  show "length (icode ?s11) = ?M + 2" by simp
  from appends_only_get_token_append stmt_okD [OF assms(1) 12]
  have "extends (snd (put_location_marker s9)) s12" by (rule appends_extends)
  then have e2: "extends (snd (put_location_marker s9)) (semicolon_loop s12)"
    by (rule extends_appends) simp
  have "extends ?s11 (semicolon_loop s12)"
    using stmt_okD [OF assms(1) 12] by (rule extends_appends) simp
  then obtain ic2 where
    i12: "icode (semicolon_loop s12) =
            icode s9 @ location_marker None # token_unit (p_token s9) # ic2"
    by (auto simp: extends_def)
  have is': "icode s' = icode s9 @ location_marker (Some (length (icode (semicolon_loop s12))))
                          # token_unit (p_token s9) # ic2"
    by (simp add: s' i12)
  have p9: "p_token s9 = p_token (semicolon_loop s7)" by (simp add: 9)
  show "?M + 2 \<le> length (icode s')" unfolding ls' by (simp add: i12)
  have "icode s' ! ?L = icode s9 ! ?L"
    using lt by (simp add: is' nth_append)
  also have "\<dots> = location_marker (Some ?M)"
    by (simp add: i9 i8)
  finally show "icode s' ! ?L = location_marker (Some ?M)" .
  show "icode s' ! ?M = location_marker (Some (length (icode s')))"
    unfolding ls' by (simp add: is')
  show "icode s' ! Suc ?M = token_unit (p_token (semicolon_loop s7))"
    by (simp add: is' nth_append p9)
  show "drop (?M + 2) (icode s') = drop (?M + 2) (icode (semicolon_loop s12))"
    by (simp add: is' i12)
  from extends_marker_calls [OF e1] obtain cs1 where
    c1: "marker_calls s9 = marker_calls s @ reserve_call ?L # cs1 @ [fixup_call ?L]"
    and n1: "nested ?L cs1"
    and b1: "list_all (\<lambda>m. m < length (icode (semicolon_loop s7))) (reserved cs1)"
    unfolding 9 by blast
  from extends_marker_calls [OF e2] obtain cs2 where
    c2: "marker_calls s' = marker_calls s9 @ reserve_call ?M # cs2 @ [fixup_call ?M]"
    and n2: "nested ?M cs2"
    unfolding s' by blast
  show "\<exists>cs1 cs2. marker_calls s' =
           marker_calls s @ reserve_call ?L # cs1 @ [fixup_call ?L, reserve_call ?M] @ cs2
             @ [fixup_call ?M]
         \<and> nested ?L cs1 \<and> list_all (\<lambda>m. m < ?M) (reserved cs1) \<and> nested ?M cs2"
    using c1 c2 n1 n2 b1 by (intro exI [of _ cs1] exI [of _ cs2]) (simp add: 9)
qed


lemma extends_new_calls:
  "extends s s' \<Longrightarrow> balanced (drop (length (marker_calls s)) (marker_calls s'))"
  by (auto simp: extends_def)

lemma demo_env_well_behaved: "well_behaved demo_env"
  unfolding well_behaved_def demo_env_def demo_expression_def Let_def
  by (simp add: appends_only_steps)

text \<open>
  Claim C1.  Whenever one of the parses that reserve markers returns, the marker calls it
  made are balanced: no marker is reserved twice, every reserved marker is fixed up
  exactly once, and nothing else is fixed up.  Its own calls are: for \<^verbatim>\<open>do\<close> and
  \<^verbatim>\<open>while\<close>, one reservation first and one fixup last; for \<^verbatim>\<open>if\<close> without
  \<^verbatim>\<open>else\<close>, the same; for \<^verbatim>\<open>if\<close> with \<^verbatim>\<open>else\<close> (an \<^verbatim>\<open>else\<close> token is recorded
  right after the second slot), two reservations and two fixups; for \<^verbatim>\<open>for\<close>, four
  reservations first and four fixups.  All other calls in between are those of nested
  parses, balanced among themselves and about later markers.
\<close>

theorem marker_balance:
  assumes "well_behaved env"
  shows "(parse_DO env (parse_statement_list k (parse_statement env n)) f s = Some s' \<longrightarrow>
            balanced (drop (length (marker_calls s)) (marker_calls s'))
          \<and> (\<exists>cs. marker_calls s' =
                     marker_calls s @ reserve_call (length (icode s)) # cs
                       @ [fixup_call (length (icode s))]
                  \<and> nested (length (icode s)) cs))
       \<and> (parse_WHILE env (parse_statement env n) f s = Some s' \<longrightarrow>
            balanced (drop (length (marker_calls s)) (marker_calls s'))
          \<and> (\<exists>cs. marker_calls s' =
                     marker_calls s @ reserve_call (length (icode s)) # cs
                       @ [fixup_call (length (icode s))]
                  \<and> nested (length (icode s)) cs))
       \<and> (parse_IF env (parse_statement env n) f s = Some s' \<longrightarrow>
            balanced (drop (length (marker_calls s)) (marker_calls s'))
          \<and> ((token s' \<noteq> tc_ELSE
               \<and> (\<exists>cs. marker_calls s' =
                          marker_calls s @ reserve_call (length (icode s)) # cs
                            @ [fixup_call (length (icode s))]
                       \<and> nested (length (icode s)) cs))
             \<or> (\<exists>M cs1 cs2 t.
                   length (icode s) < M \<and> Suc M < length (icode s')
                 \<and> icode s' ! Suc M = token_unit t \<and> tok_code t = tc_ELSE
                 \<and> marker_calls s' =
                     marker_calls s @ reserve_call (length (icode s)) # cs1
                       @ [fixup_call (length (icode s)), reserve_call M] @ cs2
                       @ [fixup_call M]
                 \<and> nested (length (icode s)) cs1
                 \<and> list_all (\<lambda>m. m < M) (reserved cs1)
                 \<and> nested M cs2)))
       \<and> (parse_FOR env (parse_statement env n) f s = Some s' \<longrightarrow>
            balanced (drop (length (marker_calls s)) (marker_calls s'))
          \<and> (\<exists>cs. marker_calls s' =
                     marker_calls s
                     @ [reserve_call (length (icode s)), reserve_call (Suc (length (icode s))),
                        reserve_call (Suc (Suc (length (icode s)))),
                        reserve_call (Suc (Suc (Suc (length (icode s))))),
                        fixup_call (Suc (Suc (length (icode s)))),
                        fixup_call (Suc (Suc (Suc (length (icode s))))),
                        fixup_call (Suc (length (icode s)))]
                     @ cs @ [fixup_call (length (icode s))]
                  \<and> nested (Suc (Suc (Suc (length (icode s))))) cs))"
proof (intro conjI impI)
  note ok = parse_statement_ok [OF assms, of n]
  have lok: "stmts_ok (parse_statement_list k (parse_statement env n))"
    unfolding stmts_ok_def using parse_statement_list_extends [OF ok] by blast
  {
    assume r: "parse_DO env (parse_statement_list k (parse_statement env n)) f s = Some s'"
    from parse_DO_extends [OF assms lok r]
    show "balanced (drop (length (marker_calls s)) (marker_calls s'))"
      by (rule extends_new_calls)
    from parse_DO_calls [OF assms lok r]
    show "\<exists>cs. marker_calls s' =
                 marker_calls s @ reserve_call (length (icode s)) # cs
                   @ [fixup_call (length (icode s))]
              \<and> nested (length (icode s)) cs" .
  }
  {
    assume r: "parse_WHILE env (parse_statement env n) f s = Some s'"
    from parse_WHILE_extends [OF assms ok r]
    show "balanced (drop (length (marker_calls s)) (marker_calls s'))"
      by (rule extends_new_calls)
    from parse_WHILE_calls [OF assms ok r]
    show "\<exists>cs. marker_calls s' =
                 marker_calls s @ reserve_call (length (icode s)) # cs
                   @ [fixup_call (length (icode s))]
              \<and> nested (length (icode s)) cs" .
  }
  {
    assume r: "parse_FOR env (parse_statement env n) f s = Some s'"
    from parse_FOR_extends [OF assms ok r]
    show "balanced (drop (length (marker_calls s)) (marker_calls s'))"
      by (rule extends_new_calls)
    from parse_FOR_calls [OF assms ok r]
    show "\<exists>cs. marker_calls s' =
                     marker_calls s
                     @ [reserve_call (length (icode s)), reserve_call (Suc (length (icode s))),
                        reserve_call (Suc (Suc (length (icode s)))),
                        reserve_call (Suc (Suc (Suc (length (icode s))))),
                        fixup_call (Suc (Suc (length (icode s)))),
                        fixup_call (Suc (Suc (Suc (length (icode s))))),
                        fixup_call (Suc (length (icode s)))]
                     @ cs @ [fixup_call (length (icode s))]
                  \<and> nested (Suc (Suc (Suc (length (icode s))))) cs"
      by blast
  }
  {
    assume r: "parse_IF env (parse_statement env n) f s = Some s'"
    from parse_IF_extends [OF assms ok r]
    show "balanced (drop (length (marker_calls s)) (marker_calls s'))"
      by (rule extends_new_calls)
    from assms r
    show "(token s' \<noteq> tc_ELSE
               \<and> (\<exists>cs. marker_calls s' =
                          marker_calls s @ reserve_call (length (icode s)) # cs
                            @ [fixup_call (length (icode s))]
                       \<and> nested (length (icode s)) cs))
             \<or> (\<exists>M cs1 cs2 t.
                   length (icode s) < M \<and> Suc M < length (icode s')
                 \<and> icode s' ! Suc M = token_unit t \<and> tok_code t = tc_ELSE
                 \<and> marker_calls s' =
                     marker_calls s @ reserve_call (length (icode s)) # cs1
                       @ [fixup_call (length (icode s)), reserve_call M] @ cs2
                       @ [fixup_call M]
                 \<and> nested (length (icode s)) cs1
                 \<and> list_all (\<lambda>m. m < M) (reserved cs1)
                 \<and> nested M cs2)"
    proof (cases rule: parse_IF_body)
      case (no_else s6 s7)
      from no_else(1) stmt_okD [OF ok no_else(2)]
      have "extends (snd (put_location_marker s)) s7" by (rule appends_extends)
      then have "extends (snd (put_location_marker s)) (semicolon_loop s7)"
        by (rule extends_appends) simp
      from extends_marker_calls [OF this] no_else(3) show ?thesis
        unfolding no_else(4) by auto
    next
      case (with_else s6 s7 s9 s12)
      note lay = parse_IF_else_layout [OF ok with_else(1,2,4,5,6)]
      from lay(10) obtain cs1 cs2 where
        "marker_calls s' =
           marker_calls s @ reserve_call (length (icode s)) # cs1
             @ [fixup_call (length (icode s)), reserve_call (length (icode s9))] @ cs2
             @ [fixup_call (length (icode s9))]"
        "nested (length (icode s)) cs1"
        "list_all (\<lambda>m. m < length (icode s9)) (reserved cs1)"
        "nested (length (icode s9)) cs2"
        by blast
      moreover have "tok_code (p_token (semicolon_loop s7)) = tc_ELSE"
        using with_else(3) by (simp add: token_def)
      moreover have "Suc (length (icode s9)) < length (icode s')"
        using lay(5) by simp
      ultimately show ?thesis
        using lay(1,8) by blast
    qed
  }
qed


section \<open>The layout of a for loop\<close>

lemma parse_FOR_run:
  assumes "s6 = conditional_get_token_append tc_left_paren err_missing_left_paren
                  (get_token_append
                     (snd (put_location_marker (snd (put_location_marker
                        (snd (put_location_marker (snd (put_location_marker s)))))))))"
    and "token s6 \<noteq> tc_semicolon"
    and "sI = parse_declarations_or_assignment env f s6"
    and "s8 = fixup_location_marker (Suc (Suc (length (icode s))))
                  (conditional_get_token_append tc_semicolon err_missing_semicolon sI)"
    and "token s8 \<noteq> tc_semicolon"
    and "parse_expression env s8 = (ty, sE)"
    and "s10 = fixup_location_marker (Suc (Suc (Suc (length (icode s)))))
                   (conditional_get_token_append tc_semicolon err_missing_semicolon
                      (check_boolean env ty sE))"
    and "token s10 \<noteq> tc_right_paren"
    and "sX = snd (parse_expression env s10)"
    and "s13 = fixup_location_marker (Suc (length (icode s)))
                   (conditional_get_token_append tc_right_paren err_missing_right_paren sX)"
    and "stmt f s13 = Some sS"
  shows "parse_FOR env stmt f s = Some (fixup_location_marker (length (icode s)) sS)"
proof -
  define p1 where "p1 = put_location_marker s"
  define p2 where "p2 = put_location_marker (snd p1)"
  define p3 where "p3 = put_location_marker (snd p2)"
  define p4 where "p4 = put_location_marker (snd p3)"
  define t6 where "t6 = conditional_get_token_append tc_left_paren err_missing_left_paren
                          (get_token_append (snd p4))"
  define t7 where "t7 =
    (if token t6 \<noteq> tc_semicolon
     then conditional_get_token_append tc_semicolon err_missing_semicolon
            (parse_declarations_or_assignment env f t6)
     else get_token_append t6)"
  define t8 where "t8 = fixup_location_marker (fst p3) t7"
  define t9 where "t9 =
    (if token t8 \<noteq> tc_semicolon
     then conditional_get_token_append tc_semicolon err_missing_semicolon
            (check_boolean env (fst (parse_expression env t8)) (snd (parse_expression env t8)))
     else get_token_append t8)"
  define t10 where "t10 = fixup_location_marker (fst p4) t9"
  define t12 where "t12 =
    conditional_get_token_append tc_right_paren err_missing_right_paren
      (if token t10 \<noteq> tc_right_paren then snd (parse_expression env t10) else t10)"
  have unfolded: "parse_FOR env stmt f s =
          (case stmt f (fixup_location_marker (fst p2) t12) of
             None \<Rightarrow> None
           | Some s14 \<Rightarrow> Some (fixup_location_marker (fst p1) s14))"
    unfolding parse_FOR_def Let_def split_beta
      t12_def t10_def t9_def t8_def t7_def t6_def p4_def p3_def p2_def p1_def ..
  have m: "fst p1 = length (icode s)" "fst p2 = Suc (length (icode s))"
    "fst p3 = Suc (Suc (length (icode s)))" "fst p4 = Suc (Suc (Suc (length (icode s))))"
    by (simp_all add: p1_def p2_def p3_def p4_def)
  have 6: "t6 = s6"
    unfolding t6_def p4_def p3_def p2_def p1_def assms(1) ..
  have 8: "t8 = s8"
    unfolding t8_def t7_def 6 m assms(4) assms(3) using assms(2) by simp
  have 10: "t10 = s10"
    unfolding t10_def t9_def 8 m assms(7) using assms(5,6) by simp
  have 13: "fixup_location_marker (Suc (length (icode s))) t12 = s13"
    unfolding t12_def 10 assms(10) assms(9) using assms(8) by simp
  show ?thesis
    unfolding unfolded m 13 using assms(11) by simp
qed

lemma appended:
  "appends_only a b \<Longrightarrow> icode b = icode a @ drop (length (icode a)) (icode b)"
  "appends_only a b \<Longrightarrow> marker_calls b = marker_calls a"
  by (auto simp: appends_only_def)

lemma extended:
  "extends a b \<Longrightarrow> icode b = icode a @ drop (length (icode a)) (icode b)"
  "extends a b \<Longrightarrow> marker_calls b = marker_calls a @ drop (length (marker_calls a)) (marker_calls b)"
  by (auto simp: extends_def)

lemma update_slots:
  "(xs @ a # ys)[length xs := v] = xs @ v # ys"
  "(xs @ a # b # ys)[Suc (length xs) := v] = xs @ a # v # ys"
  "(xs @ a # b # c # ys)[Suc (Suc (length xs)) := v] = xs @ a # b # v # ys"
  "(xs @ a # b # c # d # ys)[Suc (Suc (Suc (length xs))) := v] = xs @ a # b # c # v # ys"
  by (simp_all add: list_update_append)

text \<open>
  Claim C3.  For an input \<^verbatim>\<open>for (I; E; X) S\<close> with all three clauses present, the four
  markers are reserved first, in the order exit, body-start, condition-start,
  increment-start, and their slots precede the recorded \<^verbatim>\<open>for\<close> token.  The
  condition-start marker is fixed up after the init clause, the increment-start marker
  after the condition, the body-start marker after the closing parenthesis and the exit
  marker after the body.  The stream holds, after the four slots, the \<^verbatim>\<open>for\<close> token and
  the parenthesis, the code of I, of E, of X and of S, in this order, each clause followed
  by its delimiter when present, with the code of S last.
\<close>

theorem parse_FOR_emission_order:
  assumes "well_behaved env"
    and "s6 = conditional_get_token_append tc_left_paren err_missing_left_paren
                  (get_token_append
                     (snd (put_location_marker (snd (put_location_marker
                        (snd (put_location_marker (snd (put_location_marker s)))))))))"
    and "token s6 \<noteq> tc_semicolon"
    and "sI = parse_declarations_or_assignment env f s6"
    and "s8 = fixup_location_marker (Suc (Suc (length (icode s))))
                  (conditional_get_token_append tc_semicolon err_missing_semicolon sI)"
    and "token s8 \<noteq> tc_semicolon"
    and "parse_expression env s8 = (ty, sE)"
    and "s10 = fixup_location_marker (Suc (Suc (Suc (length (icode s)))))
                   (conditional_get_token_append tc_semicolon err_missing_semicolon
                      (check_boolean env ty sE))"
    and "token s10 \<noteq> tc_right_paren"
    and "sX = snd (parse_expression env s10)"
    and "s13 = fixup_location_marker (Suc (length (icode s)))
                   (conditional_get_token_append tc_right_paren err_missing_right_paren sX)"
    and "parse_statement env n f s13 = Some sS"
  shows "parse_FOR env (parse_statement env n) f s =
           Some (fixup_location_marker (length (icode s)) sS)
       \<and> icode (fixup_location_marker (length (icode s)) sS) =
           icode s
           @ [location_marker (Some (length (icode sS))),
              location_marker (Some (length (icode s13))),
              location_marker (Some (length (icode s8))),
              location_marker (Some (length (icode s10)))]
           @ drop (length (icode s) + 4) (icode s6)
           @ drop (length (icode s6)) (icode sI)
           @ (if token sI = tc_semicolon then [token_unit (p_token sI)] else [])
           @ drop (length (icode s8)) (icode sE)
           @ (if token sE = tc_semicolon then [token_unit (p_token sE)] else [])
           @ drop (length (icode s10)) (icode sX)
           @ (if token sX = tc_right_paren then [token_unit (p_token sX)] else [])
           @ drop (length (icode s13)) (icode sS)
       \<and> marker_calls (fixup_location_marker (length (icode s)) sS) =
           marker_calls s
           @ [reserve_call (length (icode s)), reserve_call (Suc (length (icode s))),
              reserve_call (Suc (Suc (length (icode s)))),
              reserve_call (Suc (Suc (Suc (length (icode s))))),
              fixup_call (Suc (Suc (length (icode s)))),
              fixup_call (Suc (Suc (Suc (length (icode s))))),
              fixup_call (Suc (length (icode s)))]
           @ drop (length (marker_calls s13)) (marker_calls sS)
           @ [fixup_call (length (icode s))]"
proof (intro conjI)
  let ?L = "length (icode s)"
  let ?N = "location_marker None"
  let ?s4 = "snd (put_location_marker (snd (put_location_marker
               (snd (put_location_marker (snd (put_location_marker s)))))))"
  show "parse_FOR env (parse_statement env n) f s = Some (fixup_location_marker ?L sS)"
    using assms(2-12) by (rule parse_FOR_run)
  define h where "h = drop (Suc (Suc (Suc (Suc ?L)))) (icode s6)"
  have L4: "?L + 4 = Suc (Suc (Suc (Suc ?L)))" by simp
  define cI where "cI = drop (length (icode s6)) (icode sI)"
  define d1 where "d1 = (if token sI = tc_semicolon then [token_unit (p_token sI)] else [])"
  define cE where "cE = drop (length (icode s8)) (icode sE)"
  define d2 where "d2 = (if token sE = tc_semicolon then [token_unit (p_token sE)] else [])"
  define cX where "cX = drop (length (icode s10)) (icode sX)"
  define d3 where "d3 = (if token sX = tc_right_paren then [token_unit (p_token sX)] else [])"
  define cS where "cS = drop (length (icode s13)) (icode sS)"
  define n8 where "n8 = length (icode s8)"
  define n10 where "n10 = length (icode s10)"
  define n13 where "n13 = length (icode s13)"
  define nS where "nS = length (icode sS)"
  have "appends_only ?s4 s6"
    unfolding assms(2) by (intro appends_only_steps appends_only_refl)
  from appended [OF this]
  have "icode s6 = icode ?s4 @ h" and "marker_calls s6 = marker_calls ?s4"
    by (simp_all add: h_def)
  then have i6: "icode s6 = icode s @ ?N # ?N # ?N # ?N # h"
    and c6: "marker_calls s6 = marker_calls s @ [reserve_call ?L, reserve_call (Suc ?L),
              reserve_call (Suc (Suc ?L)), reserve_call (Suc (Suc (Suc ?L)))]"
    by simp_all
  have "appends_only s6 sI"
    unfolding assms(4) by (rule well_behaved_others [OF assms(1)])
  from appended [OF this]
  have "icode sI = icode s6 @ cI" and cI': "marker_calls sI = marker_calls s6"
    by (simp_all add: cI_def)
  then have iI: "icode sI = icode s @ ?N # ?N # ?N # ?N # (h @ cI)"
    by (simp add: i6)
  have l7: "length (icode (conditional_get_token_append tc_semicolon err_missing_semicolon sI))
              = n8"
    by (simp add: assms(5) n8_def)
  have "icode s8 = (icode sI @ d1)[Suc (Suc ?L) := location_marker (Some n8)]"
    unfolding l7 [symmetric] by (simp add: assms(5) d1_def)
  then have i8: "icode s8 = icode s @ ?N # ?N # location_marker (Some n8) # ?N
                         # (h @ cI @ d1)"
    by (simp add: iI update_slots)
  have c8: "marker_calls s8 = marker_calls s6 @ [fixup_call (Suc (Suc ?L))]"
    by (simp add: assms(5) cI')
  have "appends_only s8 sE"
    using assms(1,7) by (rule well_behaved_expression)
  from appended [OF this]
  have "icode sE = icode s8 @ cE" and cE': "marker_calls sE = marker_calls s8"
    by (simp_all add: cE_def)
  then have iE: "icode sE = icode s @ ?N # ?N # location_marker (Some n8) # ?N
                         # (h @ cI @ d1 @ cE)"
    by (simp add: i8)
  have l9: "length (icode (conditional_get_token_append tc_semicolon err_missing_semicolon
                             (check_boolean env ty sE))) = n10"
    by (simp add: assms(8) n10_def)
  have "icode s10 = (icode sE @ d2)[Suc (Suc (Suc ?L)) := location_marker (Some n10)]"
    unfolding l9 [symmetric] by (simp add: assms(8) d2_def)
  then have i10: "icode s10 = icode s @ ?N # ?N # location_marker (Some n8)
                          # location_marker (Some n10) # (h @ cI @ d1 @ cE @ d2)"
    by (simp add: iE update_slots)
  have c10: "marker_calls s10 = marker_calls s8 @ [fixup_call (Suc (Suc (Suc ?L)))]"
    by (simp add: assms(8) cE')
  have "appends_only s10 sX"
    unfolding assms(10) by (rule well_behaved_others [OF assms(1)])
  from appended [OF this]
  have "icode sX = icode s10 @ cX" and cX': "marker_calls sX = marker_calls s10"
    by (simp_all add: cX_def)
  then have iX: "icode sX = icode s @ ?N # ?N # location_marker (Some n8)
                          # location_marker (Some n10) # (h @ cI @ d1 @ cE @ d2 @ cX)"
    by (simp add: i10)
  have l12: "length (icode (conditional_get_token_append tc_right_paren
                              err_missing_right_paren sX)) = n13"
    by (simp add: assms(11) n13_def)
  have "icode s13 = (icode sX @ d3)[Suc ?L := location_marker (Some n13)]"
    unfolding l12 [symmetric] by (simp add: assms(11) d3_def)
  then have i13: "icode s13 = icode s @ ?N # location_marker (Some n13)
                          # location_marker (Some n8) # location_marker (Some n10)
                          # (h @ cI @ d1 @ cE @ d2 @ cX @ d3)"
    by (simp add: iX update_slots)
  have c13: "marker_calls s13 = marker_calls s10 @ [fixup_call (Suc ?L)]"
    by (simp add: assms(11) cX')
  have e: "extends s13 sS"
    using parse_statement_ok [OF assms(1)] assms(12) by (rule stmt_okD)
  from extended [OF this]
  have "icode sS = icode s13 @ cS"
    and cS': "marker_calls sS = marker_calls s13 @ drop (length (marker_calls s13)) (marker_calls sS)"
    by (simp_all add: cS_def)
  then have iS: "icode sS = icode s @ ?N # location_marker (Some n13)
                          # location_marker (Some n8) # location_marker (Some n10)
                          # (h @ cI @ d1 @ cE @ d2 @ cX @ d3 @ cS)"
    by (simp add: i13)
  have "icode (fixup_location_marker ?L sS) = (icode sS)[?L := location_marker (Some nS)]"
    by (simp add: nS_def)
  then have "icode (fixup_location_marker ?L sS) =
          icode s @ location_marker (Some nS) # location_marker (Some n13)
            # location_marker (Some n8) # location_marker (Some n10)
            # (h @ cI @ d1 @ cE @ d2 @ cX @ d3 @ cS)"
    by (simp add: iS update_slots)
  then show "icode (fixup_location_marker ?L sS) =
           icode s
           @ [location_marker (Some (length (icode sS))),
              location_marker (Some (length (icode s13))),
              location_marker (Some (length (icode s8))),
              location_marker (Some (length (icode s10)))]
           @ drop (?L + 4) (icode s6)
           @ drop (length (icode s6)) (icode sI)
           @ (if token sI = tc_semicolon then [token_unit (p_token sI)] else [])
           @ drop (length (icode s8)) (icode sE)
           @ (if token sE = tc_semicolon then [token_unit (p_token sE)] else [])
           @ drop (length (icode s10)) (icode sX)
           @ (if token sX = tc_right_paren then [token_unit (p_token sX)] else [])
           @ drop (length (icode s13)) (icode sS)"
    unfolding h_def cI_def d1_def cE_def d2_def cX_def d3_def cS_def L4
      n8_def n10_def n13_def nS_def by simp
  have "marker_calls (fixup_location_marker ?L sS) =
          marker_calls s13 @ drop (length (marker_calls s13)) (marker_calls sS)
            @ [fixup_call ?L]"
    using cS' by simp
  then show "marker_calls (fixup_location_marker ?L sS) =
           marker_calls s
           @ [reserve_call ?L, reserve_call (Suc ?L), reserve_call (Suc (Suc ?L)),
              reserve_call (Suc (Suc (Suc ?L))), fixup_call (Suc (Suc ?L)),
              fixup_call (Suc (Suc (Suc ?L))), fixup_call (Suc ?L)]
           @ drop (length (marker_calls s13)) (marker_calls sS)
           @ [fixup_call ?L]"
    by (simp add: c13 c10 c8 c6)
qed

section \<open>Running a conditional with an else branch\<close>

lemma parse_IF_else_run:
  assumes "parse_expression env
             (conditional_get_token_append tc_left_paren err_missing_left_paren
                (get_token_append (snd (put_location_marker s)))) = (ty, s4)"
    and "s6 = conditional_get_token_append tc_right_paren err_missing_right_paren
                (check_boolean env ty s4)"
    and "stmt f s6 = Some s7"
    and "token (semicolon_loop s7) = tc_ELSE"
    and "s9 = fixup_location_marker (length (icode s)) (semicolon_loop s7)"
    and "s11 = get_token_append (snd (put_location_marker s9))"
    and "stmt f s11 = Some s12"
  shows "parse_IF env stmt f s =
           Some (fixup_location_marker (length (icode s9)) (semicolon_loop s12))"
proof -
  have 7: "stmt f (conditional_get_token_append tc_right_paren err_missing_right_paren
                     (check_boolean env ty s4)) = Some s7"
    using assms(2,3) by simp
  have t: "token (fixup_location_marker (length (icode s)) (semicolon_loop s7)) = tc_ELSE"
    using assms(4) by simp
  have 12: "stmt f (get_token_append (snd (put_location_marker
              (fixup_location_marker (length (icode s)) (semicolon_loop s7))))) = Some s12"
    using assms(5,6,7) by simp
  show ?thesis
    unfolding parse_IF_def Let_def split_beta assms(1) fst_conv snd_conv
      put_location_marker_simps(1) 7 option.case t 12 assms(5) by simp
qed

section \<open>The targets of the markers of a conditional\<close>

text \<open>
  Claim C2, as amended.  For an input \<^verbatim>\<open>if (E) S1 else S2\<close>, the false-branch marker
  is fixed up to the position right after the code of S1 and the separators that follow
  it.  That position is the slot of the skip-else marker, reserved before \<^verbatim>\<open>else\<close> is
  consumed; the recorded \<^verbatim>\<open>else\<close> token comes next, so the code of S2 starts two
  positions after the target of the false-branch marker.  The skip-else marker is fixed
  up to the end of the stream at return, right after the code of S2 and the separators
  that follow it.  Every intermediate state is the one \<^verbatim>\<open>parse_IF\<close> goes through.
\<close>

theorem parse_IF_marker_targets:
  assumes "well_behaved env"
    and "parse_expression env
           (conditional_get_token_append tc_left_paren err_missing_left_paren
              (get_token_append (snd (put_location_marker s)))) = (ty, s4)"
    and "s6 = conditional_get_token_append tc_right_paren err_missing_right_paren
                (check_boolean env ty s4)"
    and "parse_statement env n f s6 = Some s7"
    and "token (semicolon_loop s7) = tc_ELSE"
    and "s9 = fixup_location_marker (length (icode s)) (semicolon_loop s7)"
    and "s11 = get_token_append (snd (put_location_marker s9))"
    and "parse_statement env n f s11 = Some s12"
  shows "parse_IF env (parse_statement env n) f s =
           Some (fixup_location_marker (length (icode s9)) (semicolon_loop s12))
       \<and> icode (fixup_location_marker (length (icode s9)) (semicolon_loop s12)) =
           icode s
           @ [location_marker (Some (length (icode (semicolon_loop s7))))]
           @ drop (Suc (length (icode s))) (icode s6)
           @ drop (length (icode s6)) (icode s7)
           @ drop (length (icode s7)) (icode (semicolon_loop s7))
           @ [location_marker (Some (length (icode (semicolon_loop s12)))),
              token_unit (p_token (semicolon_loop s7))]
           @ drop (length (icode s11)) (icode s12)
           @ drop (length (icode s12)) (icode (semicolon_loop s12))
       \<and> length (icode (semicolon_loop s7)) =
           Suc (length (icode s)) + length (drop (Suc (length (icode s))) (icode s6))
           + length (drop (length (icode s6)) (icode s7))
           + length (drop (length (icode s7)) (icode (semicolon_loop s7)))
       \<and> length (icode s11) = length (icode (semicolon_loop s7)) + 2
       \<and> length (icode (fixup_location_marker (length (icode s9)) (semicolon_loop s12))) =
           length (icode (semicolon_loop s12))
       \<and> marker_calls (fixup_location_marker (length (icode s9)) (semicolon_loop s12)) =
           marker_calls s
           @ [reserve_call (length (icode s))]
           @ drop (length (marker_calls s6)) (marker_calls s7)
           @ [fixup_call (length (icode s)),
              reserve_call (length (icode (semicolon_loop s7)))]
           @ drop (length (marker_calls s11)) (marker_calls s12)
           @ [fixup_call (length (icode (semicolon_loop s7)))]"
proof (intro conjI)
  let ?L = "length (icode s)"
  let ?N = "location_marker None"
  let ?s8 = "semicolon_loop s7"
  let ?s13 = "semicolon_loop s12"
  let ?fin = "fixup_location_marker (length (icode s9)) ?s13"
  show "parse_IF env (parse_statement env n) f s = Some ?fin"
    using assms(2-8) by (rule parse_IF_else_run)
  define cH where "cH = drop (Suc ?L) (icode s6)"
  define cS1 where "cS1 = drop (length (icode s6)) (icode s7)"
  define sep1 where "sep1 = drop (length (icode s7)) (icode ?s8)"
  define cS2 where "cS2 = drop (length (icode s11)) (icode s12)"
  define sep2 where "sep2 = drop (length (icode s12)) (icode ?s13)"
  define k1 where "k1 = drop (length (marker_calls s6)) (marker_calls s7)"
  define k2 where "k2 = drop (length (marker_calls s11)) (marker_calls s12)"
  define n8 where "n8 = length (icode ?s8)"
  define n13 where "n13 = length (icode ?s13)"
  define els where "els = token_unit (p_token ?s8)"
  note ok = parse_statement_ok [OF assms(1), of n]
  have "appends_only (snd (put_location_marker s)) s4"
    by (rule appends_only_trans [OF _ well_behaved_expression [OF assms(1,2)]])
       (intro appends_only_steps appends_only_refl)
  then have "appends_only (snd (put_location_marker s)) s6"
    unfolding assms(3) by (intro appends_only_steps)
  from appended [OF this]
  have "icode s6 = icode (snd (put_location_marker s)) @ cH"
    and "marker_calls s6 = marker_calls (snd (put_location_marker s))"
    by (simp_all add: cH_def)
  then have i6: "icode s6 = icode s @ ?N # cH"
    and c6: "marker_calls s6 = marker_calls s @ [reserve_call ?L]"
    by simp_all
  from extended [OF stmt_okD [OF ok assms(4)]]
  have "icode s7 = icode s6 @ cS1" and "marker_calls s7 = marker_calls s6 @ k1"
    by (simp_all add: cS1_def k1_def)
  then have i7: "icode s7 = icode s @ ?N # (cH @ cS1)"
    and c7: "marker_calls s7 = marker_calls s @ reserve_call ?L # k1"
    by (simp_all add: i6 c6)
  from appended [OF appends_only_semicolon_loop [of s7]]
  have "icode ?s8 = icode s7 @ sep1" and "marker_calls ?s8 = marker_calls s7"
    by (simp_all add: sep1_def)
  then have i8: "icode ?s8 = icode s @ ?N # (cH @ cS1 @ sep1)"
    and c8: "marker_calls ?s8 = marker_calls s @ reserve_call ?L # k1"
    by (simp_all add: i7 c7)
  have l8: "n8 = Suc ?L + length cH + length cS1 + length sep1"
    unfolding n8_def i8 by simp
  show "length (icode ?s8) =
           Suc ?L + length (drop (Suc ?L) (icode s6))
           + length (drop (length (icode s6)) (icode s7))
           + length (drop (length (icode s7)) (icode ?s8))"
    using l8 unfolding n8_def cH_def cS1_def sep1_def .
  have "icode s9 = (icode ?s8)[?L := location_marker (Some n8)]"
    by (simp add: assms(6) n8_def)
  then have i9: "icode s9 = icode s @ location_marker (Some n8) # (cH @ cS1 @ sep1)"
    by (simp add: i8 update_slots)
  have l9: "length (icode s9) = n8"
    by (simp add: assms(6) n8_def)
  have c9: "marker_calls s9 = marker_calls s @ reserve_call ?L # k1 @ [fixup_call ?L]"
    by (simp add: assms(6) c7)
  have p9: "p_token s9 = p_token ?s8"
    by (simp add: assms(6))
  have i11: "icode s11 = icode s9 @ [?N, els]"
    and c11: "marker_calls s11 = marker_calls s9 @ [reserve_call n8]"
    by (simp_all add: assms(7) els_def p9 l9)
  show "length (icode s11) = length (icode ?s8) + 2"
    using l9 by (simp add: i11 n8_def)
  from extended [OF stmt_okD [OF ok assms(8)]]
  have "icode s12 = icode s11 @ cS2" and "marker_calls s12 = marker_calls s11 @ k2"
    by (simp_all add: cS2_def k2_def)
  then have i12: "icode s12 = icode s9 @ ?N # els # cS2"
    and c12: "marker_calls s12 = marker_calls s9 @ reserve_call n8 # k2"
    by (simp_all add: i11 c11)
  from appended [OF appends_only_semicolon_loop [of s12]]
  have "icode ?s13 = icode s12 @ sep2" and "marker_calls ?s13 = marker_calls s12"
    by (simp_all add: sep2_def)
  then have i13: "icode ?s13 = icode s9 @ ?N # els # (cS2 @ sep2)"
    and c13: "marker_calls ?s13 = marker_calls s9 @ reserve_call n8 # k2"
    by (simp_all add: i12 c12)
  show "length (icode ?fin) = length (icode ?s13)"
    by simp
  have "icode ?fin = (icode ?s13)[length (icode s9) := location_marker (Some n13)]"
    by (simp add: n13_def)
  then have "icode ?fin = icode s9 @ location_marker (Some n13) # els # (cS2 @ sep2)"
    by (simp add: i13 update_slots)
  then have "icode ?fin =
      icode s @ [location_marker (Some n8)] @ cH @ cS1 @ sep1
        @ [location_marker (Some n13), els] @ cS2 @ sep2"
    by (simp add: i9)
  then show "icode ?fin =
           icode s
           @ [location_marker (Some (length (icode ?s8)))]
           @ drop (Suc ?L) (icode s6)
           @ drop (length (icode s6)) (icode s7)
           @ drop (length (icode s7)) (icode ?s8)
           @ [location_marker (Some (length (icode ?s13))),
              token_unit (p_token ?s8)]
           @ drop (length (icode s11)) (icode s12)
           @ drop (length (icode s12)) (icode ?s13)"
    unfolding n8_def n13_def els_def cH_def cS1_def sep1_def cS2_def sep2_def .
  have "marker_calls ?fin = marker_calls ?s13 @ [fixup_call n8]"
    by (simp add: l9)
  then have "marker_calls ?fin =
      marker_calls s @ [reserve_call ?L] @ k1 @ [fixup_call ?L, reserve_call n8] @ k2
        @ [fixup_call n8]"
    by (simp add: c12 c9)
  then show "marker_calls ?fin =
           marker_calls s
           @ [reserve_call ?L]
           @ drop (length (marker_calls s6)) (marker_calls s7)
           @ [fixup_call ?L, reserve_call (length (icode ?s8))]
           @ drop (length (marker_calls s11)) (marker_calls s12)
           @ [fixup_call (length (icode ?s8))]"
    unfolding n8_def k1_def k2_def .
qed

section \<open>Worked examples\<close>

text \<open>
  The parses of \<^verbatim>\<open>for (i; b; j) k\<close>, \<^verbatim>\<open>do a; while (b)\<close>, \<^verbatim>\<open>while (b) x\<close>,
  \<^verbatim>\<open>if (b) x\<close> and \<^verbatim>\<open>if (b) x else y\<close> with the example collaborators, step by step.
\<close>

lemma demo_for_steps:
  shows "\<lparr>input = [ident ''i'', tok tc_semicolon, ident ''b'', tok tc_semicolon, ident ''j'', tok tc_right_paren, ident ''k''],
      icode = [location_marker None, location_marker None, location_marker None, location_marker None, token_unit (tok tc_FOR), token_unit (tok tc_left_paren)],
      errors = [],
      marker_calls = [reserve_call 0, reserve_call 1, reserve_call 2, reserve_call 3]\<rparr>
     = conditional_get_token_append tc_left_paren err_missing_left_paren
         (get_token_append
            (snd (put_location_marker (snd (put_location_marker
               (snd (put_location_marker (snd (put_location_marker
                  (start [tok tc_FOR, tok tc_left_paren, ident ''i'', tok tc_semicolon, ident ''b'', tok tc_semicolon, ident ''j'', tok tc_right_paren, ident ''k'']))))))))))"
    and "token \<lparr>input = [ident ''i'', tok tc_semicolon, ident ''b'', tok tc_semicolon, ident ''j'', tok tc_right_paren, ident ''k''],
      icode = [location_marker None, location_marker None, location_marker None, location_marker None, token_unit (tok tc_FOR), token_unit (tok tc_left_paren)],
      errors = [],
      marker_calls = [reserve_call 0, reserve_call 1, reserve_call 2, reserve_call 3]\<rparr> \<noteq> tc_semicolon"
    and "\<lparr>input = [tok tc_semicolon, ident ''b'', tok tc_semicolon, ident ''j'', tok tc_right_paren, ident ''k''],
      icode = [location_marker None, location_marker None, location_marker None, location_marker None, token_unit (tok tc_FOR), token_unit (tok tc_left_paren), token_unit (ident ''i'')],
      errors = [],
      marker_calls = [reserve_call 0, reserve_call 1, reserve_call 2, reserve_call 3]\<rparr>
     = parse_declarations_or_assignment demo_env demo_routine
         \<lparr>input = [ident ''i'', tok tc_semicolon, ident ''b'', tok tc_semicolon, ident ''j'', tok tc_right_paren, ident ''k''],
      icode = [location_marker None, location_marker None, location_marker None, location_marker None, token_unit (tok tc_FOR), token_unit (tok tc_left_paren)],
      errors = [],
      marker_calls = [reserve_call 0, reserve_call 1, reserve_call 2, reserve_call 3]\<rparr>"
    and "\<lparr>input = [ident ''b'', tok tc_semicolon, ident ''j'', tok tc_right_paren, ident ''k''],
      icode = [location_marker None, location_marker None, location_marker (Some 8), location_marker None, token_unit (tok tc_FOR), token_unit (tok tc_left_paren), token_unit (ident ''i''), token_unit (tok tc_semicolon)],
      errors = [],
      marker_calls = [reserve_call 0, reserve_call 1, reserve_call 2, reserve_call 3, fixup_call 2]\<rparr>
     = fixup_location_marker (Suc (Suc (length (icode (start [tok tc_FOR, tok tc_left_paren, ident ''i'', tok tc_semicolon, ident ''b'', tok tc_semicolon, ident ''j'', tok tc_right_paren, ident ''k''])))))
         (conditional_get_token_append tc_semicolon err_missing_semicolon
            \<lparr>input = [tok tc_semicolon, ident ''b'', tok tc_semicolon, ident ''j'', tok tc_right_paren, ident ''k''],
      icode = [location_marker None, location_marker None, location_marker None, location_marker None, token_unit (tok tc_FOR), token_unit (tok tc_left_paren), token_unit (ident ''i'')],
      errors = [],
      marker_calls = [reserve_call 0, reserve_call 1, reserve_call 2, reserve_call 3]\<rparr>)"
    and "token \<lparr>input = [ident ''b'', tok tc_semicolon, ident ''j'', tok tc_right_paren, ident ''k''],
      icode = [location_marker None, location_marker None, location_marker (Some 8), location_marker None, token_unit (tok tc_FOR), token_unit (tok tc_left_paren), token_unit (ident ''i''), token_unit (tok tc_semicolon)],
      errors = [],
      marker_calls = [reserve_call 0, reserve_call 1, reserve_call 2, reserve_call 3, fixup_call 2]\<rparr> \<noteq> tc_semicolon"
    and "parse_expression demo_env
           \<lparr>input = [ident ''b'', tok tc_semicolon, ident ''j'', tok tc_right_paren, ident ''k''],
      icode = [location_marker None, location_marker None, location_marker (Some 8), location_marker None, token_unit (tok tc_FOR), token_unit (tok tc_left_paren), token_unit (ident ''i''), token_unit (tok tc_semicolon)],
      errors = [],
      marker_calls = [reserve_call 0, reserve_call 1, reserve_call 2, reserve_call 3, fixup_call 2]\<rparr>
     = (0, \<lparr>input = [tok tc_semicolon, ident ''j'', tok tc_right_paren, ident ''k''],
      icode = [location_marker None, location_marker None, location_marker (Some 8), location_marker None, token_unit (tok tc_FOR), token_unit (tok tc_left_paren), token_unit (ident ''i''), token_unit (tok tc_semicolon), token_unit (ident ''b'')],
      errors = [],
      marker_calls = [reserve_call 0, reserve_call 1, reserve_call 2, reserve_call 3, fixup_call 2]\<rparr>)"
    and "\<lparr>input = [ident ''j'', tok tc_right_paren, ident ''k''],
      icode = [location_marker None, location_marker None, location_marker (Some 8), location_marker (Some 10), token_unit (tok tc_FOR), token_unit (tok tc_left_paren), token_unit (ident ''i''), token_unit (tok tc_semicolon), token_unit (ident ''b''), token_unit (tok tc_semicolon)],
      errors = [],
      marker_calls = [reserve_call 0, reserve_call 1, reserve_call 2, reserve_call 3, fixup_call 2, fixup_call 3]\<rparr>
     = fixup_location_marker (Suc (Suc (Suc (length (icode (start [tok tc_FOR, tok tc_left_paren, ident ''i'', tok tc_semicolon, ident ''b'', tok tc_semicolon, ident ''j'', tok tc_right_paren, ident ''k'']))))))
         (conditional_get_token_append tc_semicolon err_missing_semicolon
            (check_boolean demo_env 0
               \<lparr>input = [tok tc_semicolon, ident ''j'', tok tc_right_paren, ident ''k''],
      icode = [location_marker None, location_marker None, location_marker (Some 8), location_marker None, token_unit (tok tc_FOR), token_unit (tok tc_left_paren), token_unit (ident ''i''), token_unit (tok tc_semicolon), token_unit (ident ''b'')],
      errors = [],
      marker_calls = [reserve_call 0, reserve_call 1, reserve_call 2, reserve_call 3, fixup_call 2]\<rparr>))"
    and "token \<lparr>input = [ident ''j'', tok tc_right_paren, ident ''k''],
      icode = [location_marker None, location_marker None, location_marker (Some 8), location_marker (Some 10), token_unit (tok tc_FOR), token_unit (tok tc_left_paren), token_unit (ident ''i''), token_unit (tok tc_semicolon), token_unit (ident ''b''), token_unit (tok tc_semicolon)],
      errors = [],
      marker_calls = [reserve_call 0, reserve_call 1, reserve_call 2, reserve_call 3, fixup_call 2, fixup_call 3]\<rparr> \<noteq> tc_right_paren"
    and "\<lparr>input = [tok tc_right_paren, ident ''k''],
      icode = [location_marker None, location_marker None, location_marker (Some 8), location_marker (Some 10), token_unit (tok tc_FOR), token_unit (tok tc_left_paren), token_unit (ident ''i''), token_unit (tok tc_semicolon), token_unit (ident ''b''), token_unit (tok tc_semicolon), token_unit (ident ''j'')],
      errors = [],
      marker_calls = [reserve_call 0, reserve_call 1, reserve_call 2, reserve_call 3, fixup_call 2, fixup_call 3]\<rparr>
     = snd (parse_expression demo_env
              \<lparr>input = [ident ''j'', tok tc_right_paren, ident ''k''],
      icode = [location_marker None, location_marker None, location_marker (Some 8), location_marker (Some 10), token_unit (tok tc_FOR), token_unit (tok tc_left_paren), token_unit (ident ''i''), token_unit (tok tc_semicolon), token_unit (ident ''b''), token_unit (tok tc_semicolon)],
      errors = [],
      marker_calls = [reserve_call 0, reserve_call 1, reserve_call 2, reserve_call 3, fixup_call 2, fixup_call 3]\<rparr>)"
    and "\<lparr>input = [ident ''k''],
      icode = [location_marker None, location_marker (Some 12), location_marker (Some 8), location_marker (Some 10), token_unit (tok tc_FOR), token_unit (tok tc_left_paren), token_unit (ident ''i''), token_unit (tok tc_semicolon), token_unit (ident ''b''), token_unit (tok tc_semicolon), token_unit (ident ''j''), token_unit (tok tc_right_paren)],
      errors = [],
      marker_calls = [reserve_call 0, reserve_call 1, reserve_call 2, reserve_call 3, fixup_call 2, fixup_call 3, fixup_call 1]\<rparr>
     = fixup_location_marker (Suc (length (icode (start [tok tc_FOR, tok tc_left_paren, ident ''i'', tok tc_semicolon, ident ''b'', tok tc_semicolon, ident ''j'', tok tc_right_paren, ident ''k'']))))
         (conditional_get_token_append tc_right_paren err_missing_right_paren
            \<lparr>input = [tok tc_right_paren, ident ''k''],
      icode = [location_marker None, location_marker None, location_marker (Some 8), location_marker (Some 10), token_unit (tok tc_FOR), token_unit (tok tc_left_paren), token_unit (ident ''i''), token_unit (tok tc_semicolon), token_unit (ident ''b''), token_unit (tok tc_semicolon), token_unit (ident ''j'')],
      errors = [],
      marker_calls = [reserve_call 0, reserve_call 1, reserve_call 2, reserve_call 3, fixup_call 2, fixup_call 3]\<rparr>)"
    and "parse_statement demo_env (Suc 0) demo_routine
           \<lparr>input = [ident ''k''],
      icode = [location_marker None, location_marker (Some 12), location_marker (Some 8), location_marker (Some 10), token_unit (tok tc_FOR), token_unit (tok tc_left_paren), token_unit (ident ''i''), token_unit (tok tc_semicolon), token_unit (ident ''b''), token_unit (tok tc_semicolon), token_unit (ident ''j''), token_unit (tok tc_right_paren)],
      errors = [],
      marker_calls = [reserve_call 0, reserve_call 1, reserve_call 2, reserve_call 3, fixup_call 2, fixup_call 3, fixup_call 1]\<rparr>
     = Some \<lparr>input = [],
      icode = [location_marker None, location_marker (Some 12), location_marker (Some 8), location_marker (Some 10), token_unit (tok tc_FOR), token_unit (tok tc_left_paren), token_unit (ident ''i''), token_unit (tok tc_semicolon), token_unit (ident ''b''), token_unit (tok tc_semicolon), token_unit (ident ''j''), token_unit (tok tc_right_paren), line_marker, token_unit (ident ''k'')],
      errors = [],
      marker_calls = [reserve_call 0, reserve_call 1, reserve_call 2, reserve_call 3, fixup_call 2, fixup_call 3, fixup_call 1]\<rparr>"
    and "fixup_location_marker (length (icode (start [tok tc_FOR, tok tc_left_paren, ident ''i'', tok tc_semicolon, ident ''b'', tok tc_semicolon, ident ''j'', tok tc_right_paren, ident ''k''])))
           \<lparr>input = [],
      icode = [location_marker None, location_marker (Some 12), location_marker (Some 8), location_marker (Some 10), token_unit (tok tc_FOR), token_unit (tok tc_left_paren), token_unit (ident ''i''), token_unit (tok tc_semicolon), token_unit (ident ''b''), token_unit (tok tc_semicolon), token_unit (ident ''j''), token_unit (tok tc_right_paren), line_marker, token_unit (ident ''k'')],
      errors = [],
      marker_calls = [reserve_call 0, reserve_call 1, reserve_call 2, reserve_call 3, fixup_call 2, fixup_call 3, fixup_call 1]\<rparr>
     = \<lparr>input = [],
      icode = [location_marker (Some 14), location_marker (Some 12), location_marker (Some 8), location_marker (Some 10), token_unit (tok tc_FOR), token_unit (tok tc_left_paren), token_unit (ident ''i''), token_unit (tok tc_semicolon), token_unit (ident ''b''), token_unit (tok tc_semicolon), token_unit (ident ''j''), token_unit (tok tc_right_paren), line_marker, token_unit (ident ''k'')],
      errors = [],
      marker_calls = [reserve_call 0, reserve_call 1, reserve_call 2, reserve_call 3, fixup_call 2, fixup_call 3, fixup_call 1, fixup_call 0]\<rparr>"
  by (simp_all add: run_defs)

lemma demo_for_run:
  "parse_FOR demo_env (parse_statement demo_env (Suc 0)) demo_routine
     (start [tok tc_FOR, tok tc_left_paren, ident ''i'', tok tc_semicolon, ident ''b'', tok tc_semicolon, ident ''j'', tok tc_right_paren, ident ''k''])
   = Some \<lparr>input = [],
      icode = [location_marker (Some 14), location_marker (Some 12), location_marker (Some 8), location_marker (Some 10), token_unit (tok tc_FOR), token_unit (tok tc_left_paren), token_unit (ident ''i''), token_unit (tok tc_semicolon), token_unit (ident ''b''), token_unit (tok tc_semicolon), token_unit (ident ''j''), token_unit (tok tc_right_paren), line_marker, token_unit (ident ''k'')],
      errors = [],
      marker_calls = [reserve_call 0, reserve_call 1, reserve_call 2, reserve_call 3, fixup_call 2, fixup_call 3, fixup_call 1, fixup_call 0]\<rparr>"
  using parse_FOR_run [where stmt = "parse_statement demo_env (Suc 0)" and f = demo_routine
      and env = demo_env, OF demo_for_steps(1-11)] unfolding demo_for_steps(12) .

theorem parse_FOR_emission_order_witness:
  "well_behaved demo_env
   \<and> parse_FOR demo_env (parse_statement demo_env (Suc 0)) demo_routine
       (start [tok tc_FOR, tok tc_left_paren, ident ''i'', tok tc_semicolon, ident ''b'', tok tc_semicolon, ident ''j'', tok tc_right_paren, ident ''k''])
     = Some \<lparr>input = [],
      icode = [location_marker (Some 14), location_marker (Some 12), location_marker (Some 8), location_marker (Some 10), token_unit (tok tc_FOR), token_unit (tok tc_left_paren), token_unit (ident ''i''), token_unit (tok tc_semicolon), token_unit (ident ''b''), token_unit (tok tc_semicolon), token_unit (ident ''j''), token_unit (tok tc_right_paren), line_marker, token_unit (ident ''k'')],
      errors = [],
      marker_calls = [reserve_call 0, reserve_call 1, reserve_call 2, reserve_call 3, fixup_call 2, fixup_call 3, fixup_call 1, fixup_call 0]\<rparr>"
  using parse_FOR_emission_order [where env = demo_env and n = "Suc 0" and f = demo_routine,
      OF demo_env_well_behaved demo_for_steps(1-11)]
    demo_env_well_behaved
  unfolding demo_for_steps(12) by simp

lemma demo_do_run:
  "parse_DO demo_env (parse_statement_list (Suc (Suc 0)) (parse_statement demo_env (Suc 0)))
     demo_routine (start [tok tc_DO, ident ''a'', tok tc_semicolon, tok tc_WHILE, tok tc_left_paren, ident ''b'', tok tc_right_paren])
   = Some \<lparr>input = [],
      icode = [location_marker (Some 9), token_unit (tok tc_DO), line_marker, token_unit (ident ''a''), token_unit (tok tc_semicolon), token_unit (tok tc_WHILE), token_unit (tok tc_left_paren), token_unit (ident ''b''), token_unit (tok tc_right_paren)],
      errors = [],
      marker_calls = [reserve_call 0, fixup_call 0]\<rparr>"
  by (simp add: run_defs parse_DO_def)

lemma demo_while_run:
  "parse_WHILE demo_env (parse_statement demo_env (Suc 0)) demo_routine
     (start [tok tc_WHILE, tok tc_left_paren, ident ''b'', tok tc_right_paren, ident ''x''])
   = Some \<lparr>input = [],
      icode = [location_marker (Some 7), token_unit (tok tc_WHILE), token_unit (tok tc_left_paren), token_unit (ident ''b''), token_unit (tok tc_right_paren), line_marker, token_unit (ident ''x'')],
      errors = [],
      marker_calls = [reserve_call 0, fixup_call 0]\<rparr>"
  by (simp add: run_defs parse_WHILE_def)

lemma demo_if_run:
  "parse_IF demo_env (parse_statement demo_env (Suc 0)) demo_routine
     (start [tok tc_IF, tok tc_left_paren, ident ''b'', tok tc_right_paren, ident ''x''])
   = Some \<lparr>input = [],
      icode = [location_marker (Some 7), token_unit (tok tc_IF), token_unit (tok tc_left_paren), token_unit (ident ''b''), token_unit (tok tc_right_paren), line_marker, token_unit (ident ''x'')],
      errors = [],
      marker_calls = [reserve_call 0, fixup_call 0]\<rparr>"
  by (simp add: run_defs parse_IF_def)

lemma demo_if_else_run:
  "parse_IF demo_env (parse_statement demo_env (Suc 0)) demo_routine
     (start [tok tc_IF, tok tc_left_paren, ident ''b'', tok tc_right_paren, ident ''x'', tok tc_ELSE, ident ''y''])
   = Some \<lparr>input = [],
      icode = [location_marker (Some 7), token_unit (tok tc_IF), token_unit (tok tc_left_paren), token_unit (ident ''b''), token_unit (tok tc_right_paren), line_marker, token_unit (ident ''x''), location_marker (Some 11), token_unit (tok tc_ELSE), line_marker, token_unit (ident ''y'')],
      errors = [],
      marker_calls = [reserve_call 0, fixup_call 0, reserve_call 7, fixup_call 7]\<rparr>"
  by (simp add: run_defs parse_IF_def)

theorem marker_balance_witness:
  "well_behaved demo_env
   \<and> parse_DO demo_env (parse_statement_list (Suc (Suc 0)) (parse_statement demo_env (Suc 0)))
     demo_routine (start [tok tc_DO, ident ''a'', tok tc_semicolon, tok tc_WHILE, tok tc_left_paren, ident ''b'', tok tc_right_paren])
   = Some \<lparr>input = [],
      icode = [location_marker (Some 9), token_unit (tok tc_DO), line_marker, token_unit (ident ''a''), token_unit (tok tc_semicolon), token_unit (tok tc_WHILE), token_unit (tok tc_left_paren), token_unit (ident ''b''), token_unit (tok tc_right_paren)],
      errors = [],
      marker_calls = [reserve_call 0, fixup_call 0]\<rparr>
   \<and> parse_WHILE demo_env (parse_statement demo_env (Suc 0)) demo_routine
     (start [tok tc_WHILE, tok tc_left_paren, ident ''b'', tok tc_right_paren, ident ''x''])
   = Some \<lparr>input = [],
      icode = [location_marker (Some 7), token_unit (tok tc_WHILE), token_unit (tok tc_left_paren), token_unit (ident ''b''), token_unit (tok tc_right_paren), line_marker, token_unit (ident ''x'')],
      errors = [],
      marker_calls = [reserve_call 0, fixup_call 0]\<rparr>
   \<and> parse_IF demo_env (parse_statement demo_env (Suc 0)) demo_routine
     (start [tok tc_IF, tok tc_left_paren, ident ''b'', tok tc_right_paren, ident ''x''])
   = Some \<lparr>input = [],
      icode = [location_marker (Some 7), token_unit (tok tc_IF), token_unit (tok tc_left_paren), token_unit (ident ''b''), token_unit (tok tc_right_paren), line_marker, token_unit (ident ''x'')],
      errors = [],
      marker_calls = [reserve_call 0, fixup_call 0]\<rparr>
   \<and> parse_IF demo_env (parse_statement demo_env (Suc 0)) demo_routine
     (start [tok tc_IF, tok tc_left_paren, ident ''b'', tok tc_right_paren, ident ''x'', tok tc_ELSE, ident ''y''])
   = Some \<lparr>input = [],
      icode = [location_marker (Some 7), token_unit (tok tc_IF), token_unit (tok tc_left_paren), token_unit (ident ''b''), token_unit (tok tc_right_paren), line_marker, token_unit (ident ''x''), location_marker (Some 11), token_unit (tok tc_ELSE), line_marker, token_unit (ident ''y'')],
      errors = [],
      marker_calls = [reserve_call 0, fixup_call 0, reserve_call 7, fixup_call 7]\<rparr>
   \<and> parse_FOR demo_env (parse_statement demo_env (Suc 0)) demo_routine
     (start [tok tc_FOR, tok tc_left_paren, ident ''i'', tok tc_semicolon, ident ''b'', tok tc_semicolon, ident ''j'', tok tc_right_paren, ident ''k''])
   = Some \<lparr>input = [],
      icode = [location_marker (Some 14), location_marker (Some 12), location_marker (Some 8), location_marker (Some 10), token_unit (tok tc_FOR), token_unit (tok tc_left_paren), token_unit (ident ''i''), token_unit (tok tc_semicolon), token_unit (ident ''b''), token_unit (tok tc_semicolon), token_unit (ident ''j''), token_unit (tok tc_right_paren), line_marker, token_unit (ident ''k'')],
      errors = [],
      marker_calls = [reserve_call 0, reserve_call 1, reserve_call 2, reserve_call 3, fixup_call 2, fixup_call 3, fixup_call 1, fixup_call 0]\<rparr>
   \<and> balanced [reserve_call 0, fixup_call 0]
   \<and> balanced [reserve_call 0, fixup_call 0, reserve_call 7, fixup_call 7]
   \<and> balanced [reserve_call 0, reserve_call 1, reserve_call 2, reserve_call 3, fixup_call 2, fixup_call 3, fixup_call 1, fixup_call 0]"
proof -
  note wb = demo_env_well_behaved
  have b1: "balanced [reserve_call 0, fixup_call 0]"
    using marker_balance [OF wb, THEN conjunct1, rule_format, OF demo_do_run]
      marker_balance [OF wb, THEN conjunct2, THEN conjunct1, rule_format, OF demo_while_run]
      marker_balance [OF wb, THEN conjunct2, THEN conjunct2, THEN conjunct1, rule_format,
        OF demo_if_run]
    by (simp add: start_def)
  have b2: "balanced [reserve_call 0, fixup_call 0, reserve_call 7, fixup_call 7]"
    using marker_balance [OF wb, THEN conjunct2, THEN conjunct2, THEN conjunct1, rule_format,
        OF demo_if_else_run]
    by (simp add: start_def)
  have b3: "balanced [reserve_call 0, reserve_call 1, reserve_call 2, reserve_call 3, fixup_call 2, fixup_call 3, fixup_call 1, fixup_call 0]"
    using marker_balance [OF wb, THEN conjunct2, THEN conjunct2, THEN conjunct2, rule_format,
        OF demo_for_run]
    by (simp add: start_def)
  from wb demo_do_run demo_while_run demo_if_run demo_if_else_run demo_for_run b1 b2 b3
  show ?thesis by (intro conjI)
qed

lemma demo_if_else_steps:
  shows "parse_expression demo_env
       (conditional_get_token_append tc_left_paren err_missing_left_paren
          (get_token_append (snd (put_location_marker (start [tok tc_IF, tok tc_left_paren, ident ''b'', tok tc_right_paren, ident ''x'', tok tc_ELSE, ident ''y''])))))
     = (0, \<lparr>input = [tok tc_right_paren, ident ''x'', tok tc_ELSE, ident ''y''],
      icode = [location_marker None, token_unit (tok tc_IF), token_unit (tok tc_left_paren), token_unit (ident ''b'')],
      errors = [],
      marker_calls = [reserve_call 0]\<rparr>)"
    and "\<lparr>input = [ident ''x'', tok tc_ELSE, ident ''y''],
      icode = [location_marker None, token_unit (tok tc_IF), token_unit (tok tc_left_paren), token_unit (ident ''b''), token_unit (tok tc_right_paren)],
      errors = [],
      marker_calls = [reserve_call 0]\<rparr>
     = conditional_get_token_append tc_right_paren err_missing_right_paren
         (check_boolean demo_env 0
            \<lparr>input = [tok tc_right_paren, ident ''x'', tok tc_ELSE, ident ''y''],
      icode = [location_marker None, token_unit (tok tc_IF), token_unit (tok tc_left_paren), token_unit (ident ''b'')],
      errors = [],
      marker_calls = [reserve_call 0]\<rparr>)"
    and "parse_statement demo_env (Suc 0) demo_routine
           \<lparr>input = [ident ''x'', tok tc_ELSE, ident ''y''],
      icode = [location_marker None, token_unit (tok tc_IF), token_unit (tok tc_left_paren), token_unit (ident ''b''), token_unit (tok tc_right_paren)],
      errors = [],
      marker_calls = [reserve_call 0]\<rparr>
     = Some \<lparr>input = [tok tc_ELSE, ident ''y''],
      icode = [location_marker None, token_unit (tok tc_IF), token_unit (tok tc_left_paren), token_unit (ident ''b''), token_unit (tok tc_right_paren), line_marker, token_unit (ident ''x'')],
      errors = [],
      marker_calls = [reserve_call 0]\<rparr>"
    and "token (semicolon_loop
       \<lparr>input = [tok tc_ELSE, ident ''y''],
      icode = [location_marker None, token_unit (tok tc_IF), token_unit (tok tc_left_paren), token_unit (ident ''b''), token_unit (tok tc_right_paren), line_marker, token_unit (ident ''x'')],
      errors = [],
      marker_calls = [reserve_call 0]\<rparr>) = tc_ELSE"
    and "\<lparr>input = [tok tc_ELSE, ident ''y''],
      icode = [location_marker (Some 7), token_unit (tok tc_IF), token_unit (tok tc_left_paren), token_unit (ident ''b''), token_unit (tok tc_right_paren), line_marker, token_unit (ident ''x'')],
      errors = [],
      marker_calls = [reserve_call 0, fixup_call 0]\<rparr>
     = fixup_location_marker (length (icode (start [tok tc_IF, tok tc_left_paren, ident ''b'', tok tc_right_paren, ident ''x'', tok tc_ELSE, ident ''y''])))
         (semicolon_loop
            \<lparr>input = [tok tc_ELSE, ident ''y''],
      icode = [location_marker None, token_unit (tok tc_IF), token_unit (tok tc_left_paren), token_unit (ident ''b''), token_unit (tok tc_right_paren), line_marker, token_unit (ident ''x'')],
      errors = [],
      marker_calls = [reserve_call 0]\<rparr>)"
    and "\<lparr>input = [ident ''y''],
      icode = [location_marker (Some 7), token_unit (tok tc_IF), token_unit (tok tc_left_paren), token_unit (ident ''b''), token_unit (tok tc_right_paren), line_marker, token_unit (ident ''x''), location_marker None, token_unit (tok tc_ELSE)],
      errors = [],
      marker_calls = [reserve_call 0, fixup_call 0, reserve_call 7]\<rparr>
     = get_token_append (snd (put_location_marker
         \<lparr>input = [tok tc_ELSE, ident ''y''],
      icode = [location_marker (Some 7), token_unit (tok tc_IF), token_unit (tok tc_left_paren), token_unit (ident ''b''), token_unit (tok tc_right_paren), line_marker, token_unit (ident ''x'')],
      errors = [],
      marker_calls = [reserve_call 0, fixup_call 0]\<rparr>))"
    and "parse_statement demo_env (Suc 0) demo_routine
           \<lparr>input = [ident ''y''],
      icode = [location_marker (Some 7), token_unit (tok tc_IF), token_unit (tok tc_left_paren), token_unit (ident ''b''), token_unit (tok tc_right_paren), line_marker, token_unit (ident ''x''), location_marker None, token_unit (tok tc_ELSE)],
      errors = [],
      marker_calls = [reserve_call 0, fixup_call 0, reserve_call 7]\<rparr>
     = Some \<lparr>input = [],
      icode = [location_marker (Some 7), token_unit (tok tc_IF), token_unit (tok tc_left_paren), token_unit (ident ''b''), token_unit (tok tc_right_paren), line_marker, token_unit (ident ''x''), location_marker None, token_unit (tok tc_ELSE), line_marker, token_unit (ident ''y'')],
      errors = [],
      marker_calls = [reserve_call 0, fixup_call 0, reserve_call 7]\<rparr>"
    and "fixup_location_marker
           (length (icode
              \<lparr>input = [tok tc_ELSE, ident ''y''],
      icode = [location_marker (Some 7), token_unit (tok tc_IF), token_unit (tok tc_left_paren), token_unit (ident ''b''), token_unit (tok tc_right_paren), line_marker, token_unit (ident ''x'')],
      errors = [],
      marker_calls = [reserve_call 0, fixup_call 0]\<rparr>))
           (semicolon_loop
              \<lparr>input = [],
      icode = [location_marker (Some 7), token_unit (tok tc_IF), token_unit (tok tc_left_paren), token_unit (ident ''b''), token_unit (tok tc_right_paren), line_marker, token_unit (ident ''x''), location_marker None, token_unit (tok tc_ELSE), line_marker, token_unit (ident ''y'')],
      errors = [],
      marker_calls = [reserve_call 0, fixup_call 0, reserve_call 7]\<rparr>)
     = \<lparr>input = [],
      icode = [location_marker (Some 7), token_unit (tok tc_IF), token_unit (tok tc_left_paren), token_unit (ident ''b''), token_unit (tok tc_right_paren), line_marker, token_unit (ident ''x''), location_marker (Some 11), token_unit (tok tc_ELSE), line_marker, token_unit (ident ''y'')],
      errors = [],
      marker_calls = [reserve_call 0, fixup_call 0, reserve_call 7, fixup_call 7]\<rparr>"
  by (simp_all add: run_defs)

theorem parse_IF_marker_targets_witness:
  "well_behaved demo_env
   \<and> parse_expression demo_env
       (conditional_get_token_append tc_left_paren err_missing_left_paren
          (get_token_append (snd (put_location_marker (start [tok tc_IF, tok tc_left_paren, ident ''b'', tok tc_right_paren, ident ''x'', tok tc_ELSE, ident ''y''])))))
     = (0, \<lparr>input = [tok tc_right_paren, ident ''x'', tok tc_ELSE, ident ''y''],
      icode = [location_marker None, token_unit (tok tc_IF), token_unit (tok tc_left_paren), token_unit (ident ''b'')],
      errors = [],
      marker_calls = [reserve_call 0]\<rparr>)
   \<and> token (semicolon_loop
       \<lparr>input = [tok tc_ELSE, ident ''y''],
      icode = [location_marker None, token_unit (tok tc_IF), token_unit (tok tc_left_paren), token_unit (ident ''b''), token_unit (tok tc_right_paren), line_marker, token_unit (ident ''x'')],
      errors = [],
      marker_calls = [reserve_call 0]\<rparr>) = tc_ELSE
   \<and> parse_IF demo_env (parse_statement demo_env (Suc 0)) demo_routine
       (start [tok tc_IF, tok tc_left_paren, ident ''b'', tok tc_right_paren, ident ''x'', tok tc_ELSE, ident ''y''])
     = Some \<lparr>input = [],
      icode = [location_marker (Some 7), token_unit (tok tc_IF), token_unit (tok tc_left_paren), token_unit (ident ''b''), token_unit (tok tc_right_paren), line_marker, token_unit (ident ''x''), location_marker (Some 11), token_unit (tok tc_ELSE), line_marker, token_unit (ident ''y'')],
      errors = [],
      marker_calls = [reserve_call 0, fixup_call 0, reserve_call 7, fixup_call 7]\<rparr>"
  using parse_IF_marker_targets [where env = demo_env and n = "Suc 0" and f = demo_routine,
      OF demo_env_well_behaved demo_if_else_steps(1-7)]
    demo_env_well_behaved demo_if_else_steps(1,4)
  unfolding demo_if_else_steps(8) by simp

text \<open>
  The false-branch marker of \<^verbatim>\<open>if (b) x else y\<close> is fixed up to position 7, the slot of
  the skip-else marker, while the code of the else-branch starts at position 9.
\<close>

theorem parse_IF_false_target_counterexample:
  "parse_IF demo_env (parse_statement demo_env (Suc 0)) demo_routine
     (start [tok tc_IF, tok tc_left_paren, ident ''b'', tok tc_right_paren, ident ''x'', tok tc_ELSE, ident ''y''])
   = Some \<lparr>input = [],
      icode = [location_marker (Some 7), token_unit (tok tc_IF), token_unit (tok tc_left_paren), token_unit (ident ''b''), token_unit (tok tc_right_paren), line_marker, token_unit (ident ''x''), location_marker (Some 11), token_unit (tok tc_ELSE), line_marker, token_unit (ident ''y'')],
      errors = [],
      marker_calls = [reserve_call 0, fixup_call 0, reserve_call 7, fixup_call 7]\<rparr>
   \<and> parse_statement demo_env (Suc 0) demo_routine
       \<lparr>input = [ident ''x'', tok tc_ELSE, ident ''y''],
      icode = [location_marker None, token_unit (tok tc_IF), token_unit (tok tc_left_paren), token_unit (ident ''b''), token_unit (tok tc_right_paren)],
      errors = [],
      marker_calls = [reserve_call 0]\<rparr>
     = Some \<lparr>input = [tok tc_ELSE, ident ''y''],
      icode = [location_marker None, token_unit (tok tc_IF), token_unit (tok tc_left_paren), token_unit (ident ''b''), token_unit (tok tc_right_paren), line_marker, token_unit (ident ''x'')],
      errors = [],
      marker_calls = [reserve_call 0]\<rparr>
   \<and> \<lparr>input = [ident ''y''],
      icode = [location_marker (Some 7), token_unit (tok tc_IF), token_unit (tok tc_left_paren), token_unit (ident ''b''), token_unit (tok tc_right_paren), line_marker, token_unit (ident ''x''), location_marker None, token_unit (tok tc_ELSE)],
      errors = [],
      marker_calls = [reserve_call 0, fixup_call 0, reserve_call 7]\<rparr>
     = get_token_append (snd (put_location_marker (fixup_location_marker 0 (semicolon_loop
         \<lparr>input = [tok tc_ELSE, ident ''y''],
      icode = [location_marker None, token_unit (tok tc_IF), token_unit (tok tc_left_paren), token_unit (ident ''b''), token_unit (tok tc_right_paren), line_marker, token_unit (ident ''x'')],
      errors = [],
      marker_calls = [reserve_call 0]\<rparr>))))
   \<and> parse_statement demo_env (Suc 0) demo_routine
       \<lparr>input = [ident ''y''],
      icode = [location_marker (Some 7), token_unit (tok tc_IF), token_unit (tok tc_left_paren), token_unit (ident ''b''), token_unit (tok tc_right_paren), line_marker, token_unit (ident ''x''), location_marker None, token_unit (tok tc_ELSE)],
      errors = [],
      marker_calls = [reserve_call 0, fixup_call 0, reserve_call 7]\<rparr>
     = Some \<lparr>input = [],
      icode = [location_marker (Some 7), token_unit (tok tc_IF), token_unit (tok tc_left_paren), token_unit (ident ''b''), token_unit (tok tc_right_paren), line_marker, token_unit (ident ''x''), location_marker None, token_unit (tok tc_ELSE), line_marker, token_unit (ident ''y'')],
      errors = [],
      marker_calls = [reserve_call 0, fixup_call 0, reserve_call 7]\<rparr>
   \<and> length (icode \<lparr>input = [ident ''y''],
      icode = [location_marker (Some 7), token_unit (tok tc_IF), token_unit (tok tc_left_paren), token_unit (ident ''b''), token_unit (tok tc_right_paren), line_marker, token_unit (ident ''x''), location_marker None, token_unit (tok tc_ELSE)],
      errors = [],
      marker_calls = [reserve_call 0, fixup_call 0, reserve_call 7]\<rparr>) = 9
   \<and> icode \<lparr>input = [],
      icode = [location_marker (Some 7), token_unit (tok tc_IF), token_unit (tok tc_left_paren), token_unit (ident ''b''), token_unit (tok tc_right_paren), line_marker, token_unit (ident ''x''), location_marker (Some 11), token_unit (tok tc_ELSE), line_marker, token_unit (ident ''y'')],
      errors = [],
      marker_calls = [reserve_call 0, fixup_call 0, reserve_call 7, fixup_call 7]\<rparr> ! 0 = location_marker (Some 7)
   \<and> icode \<lparr>input = [],
      icode = [location_marker (Some 7), token_unit (tok tc_IF), token_unit (tok tc_left_paren), token_unit (ident ''b''), token_unit (tok tc_right_paren), line_marker, token_unit (ident ''x''), location_marker (Some 11), token_unit (tok tc_ELSE), line_marker, token_unit (ident ''y'')],
      errors = [],
      marker_calls = [reserve_call 0, fixup_call 0, reserve_call 7, fixup_call 7]\<rparr> ! 0
       \<noteq> location_marker (Some (length (icode \<lparr>input = [ident ''y''],
      icode = [location_marker (Some 7), token_unit (tok tc_IF), token_unit (tok tc_left_paren), token_unit (ident ''b''), token_unit (tok tc_right_paren), line_marker, token_unit (ident ''x''), location_marker None, token_unit (tok tc_ELSE)],
      errors = [],
      marker_calls = [reserve_call 0, fixup_call 0, reserve_call 7]\<rparr>)))"
  using demo_if_else_run by (simp add: run_defs)

section \<open>Conditions that are not boolean\<close>

lemma check_boolean_not_boolean:
  "\<not> is_boolean env ty \<Longrightarrow>
     check_boolean env ty t = t\<lparr>errors := errors t @ [err_incompatible_types]\<rparr>"
  by (simp add: check_boolean_def cx_error_def)

text \<open>
  Claim C5.  When the type of the condition of a \<^verbatim>\<open>while\<close> statement is not boolean, the
  boolean check adds exactly one incompatible-types error to the state in which the
  expression parser returned, and the parse goes on from there: the closing parenthesis is
  required, the controlled statement is parsed, and \<^verbatim>\<open>parse_WHILE\<close> returns whenever
  that parse returns.  The same holds of the condition of an \<^verbatim>\<open>if\<close>, of a
  \<^verbatim>\<open>do\<close>-\<^verbatim>\<open>while\<close> and of the condition clause of a \<^verbatim>\<open>for\<close>.
\<close>

theorem non_boolean_condition:
  "(parse_expression env
       (conditional_get_token_append tc_left_paren err_missing_left_paren
          (get_token_append (snd (put_location_marker s)))) = (ty, s4) \<longrightarrow>
    \<not> is_boolean env ty \<longrightarrow>
      parse_WHILE env (parse_statement env n) f s =
        map_option (fixup_location_marker (length (icode s)))
          (parse_statement env n f
             (conditional_get_token_append tc_right_paren err_missing_right_paren
                (s4\<lparr>errors := errors s4 @ [err_incompatible_types]\<rparr>)))
    \<and> parse_IF env (parse_statement env n) f s =
        Option.bind
          (parse_statement env n f
             (conditional_get_token_append tc_right_paren err_missing_right_paren
                (s4\<lparr>errors := errors s4 @ [err_incompatible_types]\<rparr>)))
          (\<lambda>s7. let s9 = fixup_location_marker (length (icode s)) (semicolon_loop s7) in
                if token s9 = tc_ELSE
                then map_option
                       (\<lambda>s12. fixup_location_marker (length (icode s9)) (semicolon_loop s12))
                       (parse_statement env n f
                          (get_token_append (snd (put_location_marker s9))))
                else Some s9))
   \<and> (parse_statement_list k (parse_statement env n) f tc_WHILE
         (get_token_append (snd (put_location_marker s))) = Some s3 \<longrightarrow>
       parse_expression env
         (conditional_get_token_append tc_left_paren err_missing_left_paren
            (conditional_get_token_append tc_WHILE err_missing_WHILE s3)) = (ty, s4) \<longrightarrow>
       \<not> is_boolean env ty \<longrightarrow>
         parse_DO env (parse_statement_list k (parse_statement env n)) f s =
           Some (fixup_location_marker (length (icode s))
                   (conditional_get_token_append tc_right_paren err_missing_right_paren
                      (s4\<lparr>errors := errors s4 @ [err_incompatible_types]\<rparr>))))
   \<and> (s8 = fixup_location_marker (Suc (Suc (length (icode s))))
               (let s6 = conditional_get_token_append tc_left_paren err_missing_left_paren
                           (get_token_append
                              (snd (put_location_marker (snd (put_location_marker
                                 (snd (put_location_marker (snd (put_location_marker s)))))))))
                in if token s6 \<noteq> tc_semicolon
                   then conditional_get_token_append tc_semicolon err_missing_semicolon
                          (parse_declarations_or_assignment env f s6)
                   else get_token_append s6) \<longrightarrow>
       token s8 \<noteq> tc_semicolon \<longrightarrow>
       parse_expression env s8 = (ty, s4) \<longrightarrow>
       \<not> is_boolean env ty \<longrightarrow>
         parse_FOR env (parse_statement env n) f s =
           (let s10 = fixup_location_marker (Suc (Suc (Suc (length (icode s)))))
                        (conditional_get_token_append tc_semicolon err_missing_semicolon
                           (s4\<lparr>errors := errors s4 @ [err_incompatible_types]\<rparr>));
                s12 = conditional_get_token_append tc_right_paren err_missing_right_paren
                        (if token s10 \<noteq> tc_right_paren
                         then snd (parse_expression env s10) else s10);
                s13 = fixup_location_marker (Suc (length (icode s))) s12
            in map_option (fixup_location_marker (length (icode s)))
                 (parse_statement env n f s13)))"
proof (intro conjI impI)
  assume e: "parse_expression env
       (conditional_get_token_append tc_left_paren err_missing_left_paren
          (get_token_append (snd (put_location_marker s)))) = (ty, s4)"
    and nb: "\<not> is_boolean env ty"
  show "parse_WHILE env (parse_statement env n) f s =
        map_option (fixup_location_marker (length (icode s)))
          (parse_statement env n f
             (conditional_get_token_append tc_right_paren err_missing_right_paren
                (s4\<lparr>errors := errors s4 @ [err_incompatible_types]\<rparr>)))"
    unfolding parse_WHILE_def Let_def split_beta e fst_conv snd_conv
      check_boolean_not_boolean [OF nb] put_location_marker_simps(1)
    by (simp split: option.splits)
  show "parse_IF env (parse_statement env n) f s =
        Option.bind
          (parse_statement env n f
             (conditional_get_token_append tc_right_paren err_missing_right_paren
                (s4\<lparr>errors := errors s4 @ [err_incompatible_types]\<rparr>)))
          (\<lambda>s7. let s9 = fixup_location_marker (length (icode s)) (semicolon_loop s7) in
                if token s9 = tc_ELSE
                then map_option
                       (\<lambda>s12. fixup_location_marker (length (icode s9)) (semicolon_loop s12))
                       (parse_statement env n f
                          (get_token_append (snd (put_location_marker s9))))
                else Some s9)"
    unfolding parse_IF_def Let_def split_beta e fst_conv snd_conv
      check_boolean_not_boolean [OF nb] put_location_marker_simps(1)
    by (simp split: option.splits)
next
  assume l: "parse_statement_list k (parse_statement env n) f tc_WHILE
         (get_token_append (snd (put_location_marker s))) = Some s3"
    and e: "parse_expression env
         (conditional_get_token_append tc_left_paren err_missing_left_paren
            (conditional_get_token_append tc_WHILE err_missing_WHILE s3)) = (ty, s4)"
    and nb: "\<not> is_boolean env ty"
  show "parse_DO env (parse_statement_list k (parse_statement env n)) f s =
           Some (fixup_location_marker (length (icode s))
                   (conditional_get_token_append tc_right_paren err_missing_right_paren
                      (s4\<lparr>errors := errors s4 @ [err_incompatible_types]\<rparr>)))"
    unfolding parse_DO_def Let_def split_beta l option.case e fst_conv snd_conv
      check_boolean_not_boolean [OF nb] put_location_marker_simps(1) ..
next
  assume 8: "s8 = fixup_location_marker (Suc (Suc (length (icode s))))
               (let s6 = conditional_get_token_append tc_left_paren err_missing_left_paren
                           (get_token_append
                              (snd (put_location_marker (snd (put_location_marker
                                 (snd (put_location_marker (snd (put_location_marker s)))))))))
                in if token s6 \<noteq> tc_semicolon
                   then conditional_get_token_append tc_semicolon err_missing_semicolon
                          (parse_declarations_or_assignment env f s6)
                   else get_token_append s6)"
    and t: "token s8 \<noteq> tc_semicolon"
    and e: "parse_expression env s8 = (ty, s4)"
    and nb: "\<not> is_boolean env ty"
  define p1 where "p1 = put_location_marker s"
  define p2 where "p2 = put_location_marker (snd p1)"
  define p3 where "p3 = put_location_marker (snd p2)"
  define p4 where "p4 = put_location_marker (snd p3)"
  have m: "fst p1 = length (icode s)" "fst p2 = Suc (length (icode s))"
    "fst p3 = Suc (Suc (length (icode s)))" "fst p4 = Suc (Suc (Suc (length (icode s))))"
    by (simp_all add: p1_def p2_def p3_def p4_def)
  have e8: "s8 = fixup_location_marker (fst p3)
               (let s6 = conditional_get_token_append tc_left_paren err_missing_left_paren
                           (get_token_append (snd p4))
                in if token s6 \<noteq> tc_semicolon
                   then conditional_get_token_append tc_semicolon err_missing_semicolon
                          (parse_declarations_or_assignment env f s6)
                   else get_token_append s6)"
    unfolding 8 p4_def p3_def p2_def p1_def by simp
  have "parse_FOR env (parse_statement env n) f s =
          (let s9 = (if token s8 \<noteq> tc_semicolon
                     then conditional_get_token_append tc_semicolon err_missing_semicolon
                            (check_boolean env (fst (parse_expression env s8))
                               (snd (parse_expression env s8)))
                     else get_token_append s8);
               s10 = fixup_location_marker (fst p4) s9;
               s12 = conditional_get_token_append tc_right_paren err_missing_right_paren
                        (if token s10 \<noteq> tc_right_paren
                         then snd (parse_expression env s10) else s10);
               s13 = fixup_location_marker (fst p2) s12
           in case parse_statement env n f s13 of
                None \<Rightarrow> None
              | Some s14 \<Rightarrow> Some (fixup_location_marker (fst p1) s14))"
    unfolding parse_FOR_def e8 Let_def split_beta p4_def p3_def p2_def p1_def ..
  also have "\<dots> =
           (let s10 = fixup_location_marker (Suc (Suc (Suc (length (icode s)))))
                        (conditional_get_token_append tc_semicolon err_missing_semicolon
                           (s4\<lparr>errors := errors s4 @ [err_incompatible_types]\<rparr>));
                s12 = conditional_get_token_append tc_right_paren err_missing_right_paren
                        (if token s10 \<noteq> tc_right_paren
                         then snd (parse_expression env s10) else s10);
                s13 = fixup_location_marker (Suc (length (icode s))) s12
            in map_option (fixup_location_marker (length (icode s)))
                 (parse_statement env n f s13))"
    unfolding m e fst_conv snd_conv check_boolean_not_boolean [OF nb] Let_def
    using t by (simp split: option.splits)
  finally show "parse_FOR env (parse_statement env n) f s =
           (let s10 = fixup_location_marker (Suc (Suc (Suc (length (icode s)))))
                        (conditional_get_token_append tc_semicolon err_missing_semicolon
                           (s4\<lparr>errors := errors s4 @ [err_incompatible_types]\<rparr>));
                s12 = conditional_get_token_append tc_right_paren err_missing_right_paren
                        (if token s10 \<noteq> tc_right_paren
                         then snd (parse_expression env s10) else s10);
                s13 = fixup_location_marker (Suc (length (icode s))) s12
            in map_option (fixup_location_marker (length (icode s)))
                 (parse_statement env n f s13))" .
qed

theorem non_boolean_condition_witness:
  "parse_expression demo_env
     (conditional_get_token_append tc_left_paren err_missing_left_paren
        (get_token_append (snd (put_location_marker (start [tok tc_WHILE, tok tc_left_paren, number ''1'', tok tc_plus, number ''1'', tok tc_right_paren, tok tc_left_bracket, tok tc_right_bracket])))))
   = (1, \<lparr>input = [tok tc_right_paren, tok tc_left_bracket, tok tc_right_bracket],
      icode = [location_marker None, token_unit (tok tc_WHILE), token_unit (tok tc_left_paren), token_unit (number ''1''), token_unit (tok tc_plus), token_unit (number ''1'')],
      errors = [],
      marker_calls = [reserve_call 0]\<rparr>)
   \<and> \<not> is_boolean demo_env 1
   \<and> parse_WHILE demo_env (parse_statement demo_env (Suc (Suc 0))) demo_routine
     (start [tok tc_WHILE, tok tc_left_paren, number ''1'', tok tc_plus, number ''1'', tok tc_right_paren, tok tc_left_bracket, tok tc_right_bracket])
   = Some \<lparr>input = [],
      icode = [location_marker (Some 11), token_unit (tok tc_WHILE), token_unit (tok tc_left_paren), token_unit (number ''1''), token_unit (tok tc_plus), token_unit (number ''1''), token_unit (tok tc_right_paren), line_marker, token_unit (tok tc_left_bracket), line_marker, token_unit (tok tc_right_bracket)],
      errors = [err_incompatible_types],
      marker_calls = [reserve_call 0, fixup_call 0]\<rparr>
   \<and> parse_expression demo_env
     (conditional_get_token_append tc_left_paren err_missing_left_paren
        (get_token_append (snd (put_location_marker (start [tok tc_IF, tok tc_left_paren, number ''1'', tok tc_right_paren, ident ''x''])))))
   = (1, \<lparr>input = [tok tc_right_paren, ident ''x''],
      icode = [location_marker None, token_unit (tok tc_IF), token_unit (tok tc_left_paren), token_unit (number ''1'')],
      errors = [],
      marker_calls = [reserve_call 0]\<rparr>)
   \<and> parse_IF demo_env (parse_statement demo_env (Suc 0)) demo_routine
     (start [tok tc_IF, tok tc_left_paren, number ''1'', tok tc_right_paren, ident ''x''])
   = Some \<lparr>input = [],
      icode = [location_marker (Some 7), token_unit (tok tc_IF), token_unit (tok tc_left_paren), token_unit (number ''1''), token_unit (tok tc_right_paren), line_marker, token_unit (ident ''x'')],
      errors = [err_incompatible_types],
      marker_calls = [reserve_call 0, fixup_call 0]\<rparr>
   \<and> parse_statement_list (Suc (Suc 0)) (parse_statement demo_env (Suc 0)) demo_routine tc_WHILE
     (get_token_append (snd (put_location_marker (start [tok tc_DO, ident ''a'', tok tc_semicolon, tok tc_WHILE, tok tc_left_paren, number ''1'', tok tc_right_paren]))))
   = Some \<lparr>input = [tok tc_WHILE, tok tc_left_paren, number ''1'', tok tc_right_paren],
      icode = [location_marker None, token_unit (tok tc_DO), line_marker, token_unit (ident ''a''), token_unit (tok tc_semicolon)],
      errors = [],
      marker_calls = [reserve_call 0]\<rparr>
   \<and> parse_expression demo_env
     (conditional_get_token_append tc_left_paren err_missing_left_paren
        (conditional_get_token_append tc_WHILE err_missing_WHILE
           \<lparr>input = [tok tc_WHILE, tok tc_left_paren, number ''1'', tok tc_right_paren],
      icode = [location_marker None, token_unit (tok tc_DO), line_marker, token_unit (ident ''a''), token_unit (tok tc_semicolon)],
      errors = [],
      marker_calls = [reserve_call 0]\<rparr>))
   = (1, \<lparr>input = [tok tc_right_paren],
      icode = [location_marker None, token_unit (tok tc_DO), line_marker, token_unit (ident ''a''), token_unit (tok tc_semicolon), token_unit (tok tc_WHILE), token_unit (tok tc_left_paren), token_unit (number ''1'')],
      errors = [],
      marker_calls = [reserve_call 0]\<rparr>)
   \<and> parse_DO demo_env (parse_statement_list (Suc (Suc 0)) (parse_statement demo_env (Suc 0)))
     demo_routine (start [tok tc_DO, ident ''a'', tok tc_semicolon, tok tc_WHILE, tok tc_left_paren, number ''1'', tok tc_right_paren])
   = Some \<lparr>input = [],
      icode = [location_marker (Some 9), token_unit (tok tc_DO), line_marker, token_unit (ident ''a''), token_unit (tok tc_semicolon), token_unit (tok tc_WHILE), token_unit (tok tc_left_paren), token_unit (number ''1''), token_unit (tok tc_right_paren)],
      errors = [err_incompatible_types],
      marker_calls = [reserve_call 0, fixup_call 0]\<rparr>
   \<and> \<lparr>input = [number ''1'', tok tc_semicolon, ident ''j'', tok tc_right_paren, ident ''k''],
      icode = [location_marker None, location_marker None, location_marker (Some 8), location_marker None, token_unit (tok tc_FOR), token_unit (tok tc_left_paren), token_unit (ident ''i''), token_unit (tok tc_semicolon)],
      errors = [],
      marker_calls = [reserve_call 0, reserve_call 1, reserve_call 2, reserve_call 3, fixup_call 2]\<rparr>
   = fixup_location_marker (Suc (Suc (length (icode (start [tok tc_FOR, tok tc_left_paren, ident ''i'', tok tc_semicolon, number ''1'', tok tc_semicolon, ident ''j'', tok tc_right_paren, ident ''k''])))))
       (let s6 = conditional_get_token_append tc_left_paren err_missing_left_paren
                   (get_token_append
                      (snd (put_location_marker (snd (put_location_marker
                         (snd (put_location_marker (snd (put_location_marker
                            (start [tok tc_FOR, tok tc_left_paren, ident ''i'', tok tc_semicolon, number ''1'', tok tc_semicolon, ident ''j'', tok tc_right_paren, ident ''k'']))))))))))
        in if token s6 \<noteq> tc_semicolon
           then conditional_get_token_append tc_semicolon err_missing_semicolon
                  (parse_declarations_or_assignment demo_env demo_routine s6)
           else get_token_append s6)
   \<and> token \<lparr>input = [number ''1'', tok tc_semicolon, ident ''j'', tok tc_right_paren, ident ''k''],
      icode = [location_marker None, location_marker None, location_marker (Some 8), location_marker None, token_unit (tok tc_FOR), token_unit (tok tc_left_paren), token_unit (ident ''i''), token_unit (tok tc_semicolon)],
      errors = [],
      marker_calls = [reserve_call 0, reserve_call 1, reserve_call 2, reserve_call 3, fixup_call 2]\<rparr> \<noteq> tc_semicolon
   \<and> parse_expression demo_env
     \<lparr>input = [number ''1'', tok tc_semicolon, ident ''j'', tok tc_right_paren, ident ''k''],
      icode = [location_marker None, location_marker None, location_marker (Some 8), location_marker None, token_unit (tok tc_FOR), token_unit (tok tc_left_paren), token_unit (ident ''i''), token_unit (tok tc_semicolon)],
      errors = [],
      marker_calls = [reserve_call 0, reserve_call 1, reserve_call 2, reserve_call 3, fixup_call 2]\<rparr>
   = (1, \<lparr>input = [tok tc_semicolon, ident ''j'', tok tc_right_paren, ident ''k''],
      icode = [location_marker None, location_marker None, location_marker (Some 8), location_marker None, token_unit (tok tc_FOR), token_unit (tok tc_left_paren), token_unit (ident ''i''), token_unit (tok tc_semicolon), token_unit (number ''1'')],
      errors = [],
      marker_calls = [reserve_call 0, reserve_call 1, reserve_call 2, reserve_call 3, fixup_call 2]\<rparr>)
   \<and> parse_FOR demo_env (parse_statement demo_env (Suc 0)) demo_routine
     (start [tok tc_FOR, tok tc_left_paren, ident ''i'', tok tc_semicolon, number ''1'', tok tc_semicolon, ident ''j'', tok tc_right_paren, ident ''k''])
   = Some \<lparr>input = [],
      icode = [location_marker (Some 14), location_marker (Some 12), location_marker (Some 8), location_marker (Some 10), token_unit (tok tc_FOR), token_unit (tok tc_left_paren), token_unit (ident ''i''), token_unit (tok tc_semicolon), token_unit (number ''1''), token_unit (tok tc_semicolon), token_unit (ident ''j''), token_unit (tok tc_right_paren), line_marker, token_unit (ident ''k'')],
      errors = [err_incompatible_types],
      marker_calls = [reserve_call 0, reserve_call 1, reserve_call 2, reserve_call 3, fixup_call 2, fixup_call 3, fixup_call 1, fixup_call 0]\<rparr>"
proof -
  have we: "parse_expression demo_env
     (conditional_get_token_append tc_left_paren err_missing_left_paren
        (get_token_append (snd (put_location_marker (start [tok tc_WHILE, tok tc_left_paren, number ''1'', tok tc_plus, number ''1'', tok tc_right_paren, tok tc_left_bracket, tok tc_right_bracket])))))
   = (1, \<lparr>input = [tok tc_right_paren, tok tc_left_bracket, tok tc_right_bracket],
      icode = [location_marker None, token_unit (tok tc_WHILE), token_unit (tok tc_left_paren), token_unit (number ''1''), token_unit (tok tc_plus), token_unit (number ''1'')],
      errors = [],
      marker_calls = [reserve_call 0]\<rparr>)"
    by (simp add: run_defs)
  have nb: "\<not> is_boolean demo_env 1"
    by (simp add: run_defs)
  have ie: "parse_expression demo_env
     (conditional_get_token_append tc_left_paren err_missing_left_paren
        (get_token_append (snd (put_location_marker (start [tok tc_IF, tok tc_left_paren, number ''1'', tok tc_right_paren, ident ''x''])))))
   = (1, \<lparr>input = [tok tc_right_paren, ident ''x''],
      icode = [location_marker None, token_unit (tok tc_IF), token_unit (tok tc_left_paren), token_unit (number ''1'')],
      errors = [],
      marker_calls = [reserve_call 0]\<rparr>)"
    by (simp add: run_defs)
  have dl: "parse_statement_list (Suc (Suc 0)) (parse_statement demo_env (Suc 0)) demo_routine tc_WHILE
     (get_token_append (snd (put_location_marker (start [tok tc_DO, ident ''a'', tok tc_semicolon, tok tc_WHILE, tok tc_left_paren, number ''1'', tok tc_right_paren]))))
   = Some \<lparr>input = [tok tc_WHILE, tok tc_left_paren, number ''1'', tok tc_right_paren],
      icode = [location_marker None, token_unit (tok tc_DO), line_marker, token_unit (ident ''a''), token_unit (tok tc_semicolon)],
      errors = [],
      marker_calls = [reserve_call 0]\<rparr>"
    by (simp add: run_defs)
  have de: "parse_expression demo_env
     (conditional_get_token_append tc_left_paren err_missing_left_paren
        (conditional_get_token_append tc_WHILE err_missing_WHILE
           \<lparr>input = [tok tc_WHILE, tok tc_left_paren, number ''1'', tok tc_right_paren],
      icode = [location_marker None, token_unit (tok tc_DO), line_marker, token_unit (ident ''a''), token_unit (tok tc_semicolon)],
      errors = [],
      marker_calls = [reserve_call 0]\<rparr>))
   = (1, \<lparr>input = [tok tc_right_paren],
      icode = [location_marker None, token_unit (tok tc_DO), line_marker, token_unit (ident ''a''), token_unit (tok tc_semicolon), token_unit (tok tc_WHILE), token_unit (tok tc_left_paren), token_unit (number ''1'')],
      errors = [],
      marker_calls = [reserve_call 0]\<rparr>)"
    by (simp add: run_defs)
  have f8: "\<lparr>input = [number ''1'', tok tc_semicolon, ident ''j'', tok tc_right_paren, ident ''k''],
      icode = [location_marker None, location_marker None, location_marker (Some 8), location_marker None, token_unit (tok tc_FOR), token_unit (tok tc_left_paren), token_unit (ident ''i''), token_unit (tok tc_semicolon)],
      errors = [],
      marker_calls = [reserve_call 0, reserve_call 1, reserve_call 2, reserve_call 3, fixup_call 2]\<rparr>
   = fixup_location_marker (Suc (Suc (length (icode (start [tok tc_FOR, tok tc_left_paren, ident ''i'', tok tc_semicolon, number ''1'', tok tc_semicolon, ident ''j'', tok tc_right_paren, ident ''k''])))))
       (let s6 = conditional_get_token_append tc_left_paren err_missing_left_paren
                   (get_token_append
                      (snd (put_location_marker (snd (put_location_marker
                         (snd (put_location_marker (snd (put_location_marker
                            (start [tok tc_FOR, tok tc_left_paren, ident ''i'', tok tc_semicolon, number ''1'', tok tc_semicolon, ident ''j'', tok tc_right_paren, ident ''k'']))))))))))
        in if token s6 \<noteq> tc_semicolon
           then conditional_get_token_append tc_semicolon err_missing_semicolon
                  (parse_declarations_or_assignment demo_env demo_routine s6)
           else get_token_append s6)"
    by (simp add: run_defs)
  have ft: "token \<lparr>input = [number ''1'', tok tc_semicolon, ident ''j'', tok tc_right_paren, ident ''k''],
      icode = [location_marker None, location_marker None, location_marker (Some 8), location_marker None, token_unit (tok tc_FOR), token_unit (tok tc_left_paren), token_unit (ident ''i''), token_unit (tok tc_semicolon)],
      errors = [],
      marker_calls = [reserve_call 0, reserve_call 1, reserve_call 2, reserve_call 3, fixup_call 2]\<rparr> \<noteq> tc_semicolon"
    by (simp add: run_defs)
  have fe: "parse_expression demo_env
     \<lparr>input = [number ''1'', tok tc_semicolon, ident ''j'', tok tc_right_paren, ident ''k''],
      icode = [location_marker None, location_marker None, location_marker (Some 8), location_marker None, token_unit (tok tc_FOR), token_unit (tok tc_left_paren), token_unit (ident ''i''), token_unit (tok tc_semicolon)],
      errors = [],
      marker_calls = [reserve_call 0, reserve_call 1, reserve_call 2, reserve_call 3, fixup_call 2]\<rparr>
   = (1, \<lparr>input = [tok tc_semicolon, ident ''j'', tok tc_right_paren, ident ''k''],
      icode = [location_marker None, location_marker None, location_marker (Some 8), location_marker None, token_unit (tok tc_FOR), token_unit (tok tc_left_paren), token_unit (ident ''i''), token_unit (tok tc_semicolon), token_unit (number ''1'')],
      errors = [],
      marker_calls = [reserve_call 0, reserve_call 1, reserve_call 2, reserve_call 3, fixup_call 2]\<rparr>)"
    by (simp add: run_defs)
  have wr: "parse_WHILE demo_env (parse_statement demo_env (Suc (Suc 0))) demo_routine
     (start [tok tc_WHILE, tok tc_left_paren, number ''1'', tok tc_plus, number ''1'', tok tc_right_paren, tok tc_left_bracket, tok tc_right_bracket])
   = Some \<lparr>input = [],
      icode = [location_marker (Some 11), token_unit (tok tc_WHILE), token_unit (tok tc_left_paren), token_unit (number ''1''), token_unit (tok tc_plus), token_unit (number ''1''), token_unit (tok tc_right_paren), line_marker, token_unit (tok tc_left_bracket), line_marker, token_unit (tok tc_right_bracket)],
      errors = [err_incompatible_types],
      marker_calls = [reserve_call 0, fixup_call 0]\<rparr>"
    by (rule trans [OF non_boolean_condition [where env = demo_env and n = "Suc (Suc 0)" and f = demo_routine,
        THEN conjunct1, rule_format, OF we nb, THEN conjunct1]])
       (simp add: run_defs parse_compound_def)
  have ir: "parse_IF demo_env (parse_statement demo_env (Suc 0)) demo_routine
     (start [tok tc_IF, tok tc_left_paren, number ''1'', tok tc_right_paren, ident ''x''])
   = Some \<lparr>input = [],
      icode = [location_marker (Some 7), token_unit (tok tc_IF), token_unit (tok tc_left_paren), token_unit (number ''1''), token_unit (tok tc_right_paren), line_marker, token_unit (ident ''x'')],
      errors = [err_incompatible_types],
      marker_calls = [reserve_call 0, fixup_call 0]\<rparr>"
    by (rule trans [OF non_boolean_condition [where env = demo_env and n = "Suc 0" and f = demo_routine,
        THEN conjunct1, rule_format, OF ie nb, THEN conjunct2]])
       (simp add: run_defs parse_compound_def)
  have dr: "parse_DO demo_env (parse_statement_list (Suc (Suc 0)) (parse_statement demo_env (Suc 0)))
     demo_routine (start [tok tc_DO, ident ''a'', tok tc_semicolon, tok tc_WHILE, tok tc_left_paren, number ''1'', tok tc_right_paren])
   = Some \<lparr>input = [],
      icode = [location_marker (Some 9), token_unit (tok tc_DO), line_marker, token_unit (ident ''a''), token_unit (tok tc_semicolon), token_unit (tok tc_WHILE), token_unit (tok tc_left_paren), token_unit (number ''1''), token_unit (tok tc_right_paren)],
      errors = [err_incompatible_types],
      marker_calls = [reserve_call 0, fixup_call 0]\<rparr>"
    by (rule trans [OF non_boolean_condition [where env = demo_env and n = "Suc 0" and f = demo_routine,
        THEN conjunct2, THEN conjunct1, rule_format, OF dl de nb]])
       (simp add: run_defs parse_compound_def)
  have fr: "parse_FOR demo_env (parse_statement demo_env (Suc 0)) demo_routine
     (start [tok tc_FOR, tok tc_left_paren, ident ''i'', tok tc_semicolon, number ''1'', tok tc_semicolon, ident ''j'', tok tc_right_paren, ident ''k''])
   = Some \<lparr>input = [],
      icode = [location_marker (Some 14), location_marker (Some 12), location_marker (Some 8), location_marker (Some 10), token_unit (tok tc_FOR), token_unit (tok tc_left_paren), token_unit (ident ''i''), token_unit (tok tc_semicolon), token_unit (number ''1''), token_unit (tok tc_semicolon), token_unit (ident ''j''), token_unit (tok tc_right_paren), line_marker, token_unit (ident ''k'')],
      errors = [err_incompatible_types],
      marker_calls = [reserve_call 0, reserve_call 1, reserve_call 2, reserve_call 3, fixup_call 2, fixup_call 3, fixup_call 1, fixup_call 0]\<rparr>"
    by (rule trans [OF non_boolean_condition [where env = demo_env and n = "Suc 0" and f = demo_routine,
        THEN conjunct2, THEN conjunct2, rule_format, OF f8 ft fe nb]])
       (simp add: run_defs parse_compound_def)
  from we nb wr ie ir dl de dr f8 ft fe fr show ?thesis by (intro conjI)
qed

end
